theory Spec2Isabelle
  imports Complex_Main "HOL-Library.List_Lexorder" "HOL-Library.Char_ord" "HOL-Library.Sublist"
    "HOL-Library.Multiset"
begin

section \<open>Alert tiers (demo.py, main, lines 211-225)\<close>

text \<open>
  The proactive alert of \<^verbatim>\<open>main\<close> is an \<^verbatim>\<open>if/elif\<close> chain over \<^verbatim>\<open>aqi_val\<close>, the
  AQI of the worst city. \<^verbatim>\<open>aqi_val\<close> is a float that went through \<^verbatim>\<open>fillna(0)\<close>, so it is
  never NaN and the comparisons against the integer breakpoints are exact: a real number
  models it. The five branches are the five tiers; the branch also fixes the banner
  (\<^verbatim>\<open>st.error\<close>, \<^verbatim>\<open>st.error\<close>, \<^verbatim>\<open>st.warning\<close>, \<^verbatim>\<open>st.info\<close>, \<^verbatim>\<open>st.success\<close>).
\<close>

datatype tier = GOOD | MODERATE | POOR | VERY_POOR | SEVERE

datatype banner = StError | StWarning | StInfo | StSuccess

definition classify :: "real \<Rightarrow> tier" where
  "classify aqi_val =
     (if aqi_val \<ge> 401 then SEVERE
      else if aqi_val \<ge> 301 then VERY_POOR
      else if aqi_val \<ge> 201 then POOR
      else if aqi_val \<ge> 101 then MODERATE
      else GOOD)"

fun banner_of :: "tier \<Rightarrow> banner" where
  "banner_of SEVERE = StError"
| "banner_of VERY_POOR = StError"
| "banner_of POOR = StWarning"
| "banner_of MODERATE = StInfo"
| "banner_of GOOD = StSuccess"

text \<open>The severity ordering GOOD < MODERATE < POOR < VERY_POOR < SEVERE, as a rank.\<close>

fun severity :: "tier \<Rightarrow> nat" where
  "severity GOOD = 0"
| "severity MODERATE = 1"
| "severity POOR = 2"
| "severity VERY_POOR = 3"
| "severity SEVERE = 4"


section \<open>Effects shared by the two scripts\<close>

text \<open>
  Both scripts act on the outside world; the model records the actions a claim speaks
  about as a trace of events, in program order.
  \<^item> \<open>Print\<close>: a \<^verbatim>\<open>print\<close> of a fixed text (the banners that only format counters are left
    out of the trace);
  \<^item> \<open>ApiRequest q\<close>: the \<^verbatim>\<open>try\<close> block that builds the Groq client and sends the chat
    completion request for the user query \<open>q\<close> is entered;
  \<^item> \<open>SysExit c\<close>: \<^verbatim>\<open>sys.exit(c)\<close>, after which nothing else runs;
  \<^item> \<open>Uncaught x\<close>: an exception of class \<open>x\<close> is raised outside every \<^verbatim>\<open>try\<close>; the
    process ends there with a traceback;
  \<^item> \<open>LogChat role content\<close>: \<^verbatim>\<open>log_chat_message(role, content)\<close>, which appends a row to
    the transcript and swallows its own failures;
  \<^item> \<open>Markdown role content\<close>: \<^verbatim>\<open>st.markdown(content)\<close> inside \<^verbatim>\<open>st.chat_message(role)\<close>.
\<close>

datatype event =
    Print string
  | ApiRequest string
  | SysExit int
  | LogChat string string
  | Markdown string string
  | Uncaught string

text \<open>
  The hosted endpoint is outside the repository. What the \<^verbatim>\<open>try\<close> block around it did is
  an input of the model:
  \<^item> \<open>Raised e\<close>: it raised an exception, and \<open>e\<close> is \<^verbatim>\<open>str(e)\<close>;
  \<^item> \<open>Completed content (Some t) elapsed\<close>: it completed with the reply text \<open>content\<close>,
    \<^verbatim>\<open>chat_completion.usage\<close> is present and its attribute \<^verbatim>\<open>total_time\<close> is the number \<open>t\<close>;
    \<open>elapsed\<close> is the locally measured \<^verbatim>\<open>time.time() - start_time\<close>;
  \<^item> \<open>Completed content None elapsed\<close>: it completed, and \<^verbatim>\<open>usage\<close> is missing or has no
    attribute \<^verbatim>\<open>total_time\<close>;
  \<^item> \<open>CompletedNoneTime content elapsed\<close>: it completed, \<^verbatim>\<open>usage\<close> is present and has the
    attribute \<^verbatim>\<open>total_time\<close>, and the value of the attribute is \<^verbatim>\<open>None\<close> (the attribute
    is an optional field of the client library's usage object).
\<close>

datatype api_result =
    Raised string
  | Completed string "real option" real
  | CompletedNoneTime string real

text \<open>\<^verbatim>\<open>not GROQ_API_KEY\<close>: the variable is unset (\<^verbatim>\<open>None\<close>) or the empty string.\<close>

definition key_absent :: "string option \<Rightarrow> bool" where
  "key_absent GROQ_API_KEY = (GROQ_API_KEY = None \<or> GROQ_API_KEY = Some [])"

text \<open>The exit codes and the requests of a trace; a run halts when it reaches \<^verbatim>\<open>sys.exit\<close>.\<close>

definition exits :: "event list \<Rightarrow> int list" where
  "exits tr = List.map_filter (\<lambda>e. case e of SysExit c \<Rightarrow> Some c | _ \<Rightarrow> None) tr"

definition halts :: "event list \<Rightarrow> bool" where
  "halts tr = (exits tr \<noteq> [])"

definition requests :: "event list \<Rightarrow> string list" where
  "requests tr = List.map_filter (\<lambda>e. case e of ApiRequest q \<Rightarrow> Some q | _ \<Rightarrow> None) tr"

definition uncaught :: "event list \<Rightarrow> bool" where
  "uncaught tr = (List.map_filter (\<lambda>e. case e of Uncaught x \<Rightarrow> Some x | _ \<Rightarrow> None) tr \<noteq> [])"

section \<open>Batch latency test (demo2.py)\<close>

datatype status = SUCCESS | FAILURE

record batch_row =
  Query_ID :: nat
  User_Query :: string
  Groq_Response_Content :: string
  Total_Response_Time_Seconds :: real
  Status :: status

text \<open>
  \<^verbatim>\<open>get_groq_response_and_time\<close> (lines 47-92), given what its \<^verbatim>\<open>try\<close> block did. The
  second component of the result is \<^verbatim>\<open>trt_seconds\<close>: a number, or Python's \<^verbatim>\<open>None\<close>. The test
  of line 78 only asks whether \<^verbatim>\<open>usage\<close> has the attribute, so an attribute holding
  \<^verbatim>\<open>None\<close> is taken as it is and the local clock of line 82 is not consulted.
\<close>

definition get_groq_response_and_time :: "api_result \<Rightarrow> string
    \<Rightarrow> event list \<times> string \<times> real option" where
  "get_groq_response_and_time res user_query =
     (case res of
        Completed response_content total_time elapsed \<Rightarrow>
          ([ApiRequest user_query], response_content,
           (case total_time of Some t \<Rightarrow> Some t | None \<Rightarrow> Some elapsed))
      | CompletedNoneTime response_content elapsed \<Rightarrow>
          ([ApiRequest user_query], response_content, None)
      | Raised e \<Rightarrow>
          (let error_message = ''API_ERROR: '' @ e
           in ([ApiRequest user_query,
                Print (''Error for query: '' @ user_query @ ''. '' @ error_message)],
               error_message, Some (-1))))"

text \<open>
  The loop of \<^verbatim>\<open>main\<close> (lines 120-134) over \<^verbatim>\<open>enumerate(queries)\<close>, as a recursion on the
  queries still to run with the loop index \<open>i\<close>. \<open>chat i q\<close> is what the endpoint does at
  the \<open>i\<close>-th call, for query \<open>q\<close>. Every row is appended to the output file as soon as it
  is computed; the list returned is the file's data rows, in the order written.
  The comparison \<^verbatim>\<open>trt >= 0\<close> of line 126 is outside every \<^verbatim>\<open>try\<close>: when \<^verbatim>\<open>trt\<close> is
  \<^verbatim>\<open>None\<close> it raises a TypeError, no row is written for the query and the loop is over.
\<close>

fun run_queries :: "(nat \<Rightarrow> string \<Rightarrow> api_result) \<Rightarrow> nat \<Rightarrow> string list
    \<Rightarrow> event list \<times> batch_row list" where
  "run_queries chat i [] = ([], [])"
| "run_queries chat i (query # rest) =
     (let (ev, response, trt_seconds) = get_groq_response_and_time (chat i query) query
      in case trt_seconds of
           None \<Rightarrow> (ev @ [Uncaught ''TypeError''], [])
         | Some trt \<Rightarrow>
             (let status = (if trt \<ge> 0 then SUCCESS else FAILURE);
                  row = \<lparr>Query_ID = i + 1, User_Query = query, Groq_Response_Content = response,
                         Total_Response_Time_Seconds = trt, Status = status\<rparr>;
                  (evs, rows) = run_queries chat (i + 1) rest
              in (ev @ evs, row # rows)))"

text \<open>
  The final summary (lines 137-145). \<^verbatim>\<open>mean_trt\<close> and \<^verbatim>\<open>median_trt\<close> are either a number or
  the string \<^verbatim>\<open>"N/A"\<close>. Mean and median are those of pandas on a non-empty column, over the
  reals (the rounding of floating-point sums is not modelled).
\<close>

datatype stat = NA | Value real

definition mean :: "real list \<Rightarrow> real" where
  "mean xs = sum_list xs / real (length xs)"

definition median :: "real list \<Rightarrow> real" where
  "median xs =
     (let s = sort xs; n = length s
      in if odd n then s ! (n div 2) else (s ! (n div 2 - 1) + s ! (n div 2)) / 2)"

definition successful_runs :: "batch_row list \<Rightarrow> batch_row list" where
  "successful_runs df_results = filter (\<lambda>r. Total_Response_Time_Seconds r \<ge> 0) df_results"

record summary =
  attempted :: nat
  successful :: nat
  mean_trt :: stat
  median_trt :: stat

definition final_summary :: "nat \<Rightarrow> batch_row list \<Rightarrow> summary" where
  "final_summary n_queries df_results =
     (let succ = successful_runs df_results;
          times = map Total_Response_Time_Seconds succ
      in if succ \<noteq> []
         then \<lparr>attempted = n_queries, successful = length succ,
               mean_trt = Value (mean times), median_trt = Value (median times)\<rparr>
         else \<lparr>attempted = n_queries, successful = length succ,
               mean_trt = NA, median_trt = NA\<rparr>)"

text \<open>
  \<^verbatim>\<open>main\<close> of demo2.py (lines 98-155). The queries file is \<open>None\<close> when it does not exist,
  otherwise the list of its stripped non-blank lines (line 102). When the loop dies of an
  uncaught exception the script ends there and computes no summary; the rows written
  until then are those of \<open>run_queries\<close>.
\<close>

definition demo2_main :: "string list option \<Rightarrow> (nat \<Rightarrow> string \<Rightarrow> api_result)
    \<Rightarrow> event list \<times> (batch_row list \<times> summary) option" where
  "demo2_main queries_file chat =
     (case queries_file of
        None \<Rightarrow>
          ([Print ''ERROR: Query file 'all_775_queries.txt' not found. Ensure you ran the extraction script.''],
           None)
      | Some queries \<Rightarrow>
          if queries = [] then ([Print ''No queries found in the file. Exiting.''], None)
          else (let (ev, rows) = run_queries chat 0 queries
                in if uncaught ev then (ev, None)
                   else (ev, Some (rows, final_summary (length queries) rows))))"

text \<open>
  The script as a whole: the module-level check of the credential (lines 24-27) runs at
  import, before \<^verbatim>\<open>main\<close> is even defined.
\<close>

definition demo2 :: "string option \<Rightarrow> string list option \<Rightarrow> (nat \<Rightarrow> string \<Rightarrow> api_result)
    \<Rightarrow> event list \<times> (batch_row list \<times> summary) option" where
  "demo2 GROQ_API_KEY queries_file chat =
     (if key_absent GROQ_API_KEY
      then ([Print ''FATAL ERROR: GROQ_API_KEY not found in environment variables.'',
             Print ''Please ensure you have a .env file with GROQ_API_KEY='your_key_here'.'',
             SysExit 1], None)
      else demo2_main queries_file chat)"

section \<open>Interactive chat turn (demo.py)\<close>

text \<open>
  \<^verbatim>\<open>get_groq_response\<close> (lines 129-177). The sampled contexts and the name lists only enter
  the system prompt, which goes to the endpoint; what the \<^verbatim>\<open>try\<close> block did is the input
  \<open>res\<close>. Python strings are modelled as their UTF-8 bytes: the warning sign and its
  variation selector at the head of the missing-key message are six bytes.
\<close>

definition missing_key_message :: string where
  "missing_key_message =
     [CHR 0xE2, CHR 0x9A, CHR 0xA0, CHR 0xEF, CHR 0xB8, CHR 0x8F] @
     '' Error: GROQ_API_KEY not found. Ensure it is set in your .env file and the 'python-dotenv' library is installed.''"

definition get_groq_response :: "string option \<Rightarrow> api_result \<Rightarrow> string \<Rightarrow> event list \<times> string" where
  "get_groq_response GROQ_API_KEY res user_query =
     (if key_absent GROQ_API_KEY then ([], missing_key_message)
      else (case res of
              Completed content total_time elapsed \<Rightarrow> ([ApiRequest user_query], content)
            | CompletedNoneTime content elapsed \<Rightarrow> ([ApiRequest user_query], content)
            | Raised e \<Rightarrow>
                ([ApiRequest user_query],
                 ''An API error occurred: '' @ e @
                 ''. The data context size has been reduced. If this persists, check your Groq API tier limits.'')))"

record message =
  role :: string
  content :: string

text \<open>
  The chat input handler of \<^verbatim>\<open>main\<close> (lines 247-261). \<^verbatim>\<open>st.chat_input\<close> gives \<^verbatim>\<open>None\<close> when
  nothing was submitted; the walrus test also skips an empty string. The result is the
  trace of the turn and \<^verbatim>\<open>st.session_state.messages\<close> after it.
\<close>

definition chat_turn :: "string option \<Rightarrow> api_result \<Rightarrow> message list \<Rightarrow> string option
    \<Rightarrow> event list \<times> message list" where
  "chat_turn GROQ_API_KEY res messages chat_input =
     (case chat_input of
        None \<Rightarrow> ([], messages)
      | Some user_query \<Rightarrow>
          if user_query = [] then ([], messages)
          else (let messages1 = messages @ [\<lparr>role = ''user'', content = user_query\<rparr>];
                    (ev, reply) = get_groq_response GROQ_API_KEY res user_query
                in ([LogChat ''user'' user_query, Markdown ''user'' user_query] @ ev @
                    [Markdown ''assistant'' reply, LogChat ''assistant'' reply],
                    messages1 @ [\<lparr>role = ''assistant'', content = reply\<rparr>])))"


section \<open>Dataset loading and context sampling (demo.py, load_aqi_datasets)\<close>

subsection \<open>Tables\<close>

text \<open>
  A DataFrame is the list of its rows, in row order. A cell of the AQI column as
  \<^verbatim>\<open>read_csv\<close> delivers it is missing (\<open>Null\<close>, pandas NaN), a number, or a text that
  \<^verbatim>\<open>pd.to_numeric\<close> cannot parse (\<open>Txt\<close>). Numbers are reals: infinities and the rounding of
  floats are not modelled. A date after \<^verbatim>\<open>pd.to_datetime(errors='coerce')\<close> is a point in
  time or \<open>None\<close> (NaT). The columns AQI_Bucket, PM2.5 and PM10 are carried along and never
  inspected; they are the field \<open>Other\<close>.

  \<open>day_row\<close> is a row of city_day.csv (\<open>Key\<close> is the column City) or of station_day.csv
  (\<open>Key\<close> is the column StationId). \<open>city_obs\<close> is a row of \<^verbatim>\<open>latest_city_data\<close>,
  \<open>station_obs\<close> a row of \<^verbatim>\<open>latest_station_data\<close>, \<open>station_meta\<close> a row of stations.csv.
\<close>

datatype cell = Null | Num real | Txt string

record 'p day_row =
  Key :: "string option"
  Date :: "int option"
  AQI :: cell
  Other :: 'p

record 'p city_obs =
  City :: string
  CDate :: "int option"
  CAQI :: real
  COther :: 'p

record station_meta =
  StationId :: "string option"
  MStationName :: "string option"
  MCity :: "string option"

record 'p station_obs =
  StationName :: "string option"
  SCity :: "string option"
  SDate :: "int option"
  SAQI :: real
  SOther :: 'p

datatype load_error = LoadError

subsection \<open>Latest row per entity (lines 79 and 84)\<close>

text \<open>
  \<^verbatim>\<open>idxmax\<close> gives the label of the first occurrence of the maximum. \<open>first_max_by f xs\<close> is
  that occurrence: scanning from the left, a later element replaces the candidate only when
  it is strictly greater. It is \<open>None\<close> on the empty list, where pandas raises.
\<close>

fun first_max_by :: "('r \<Rightarrow> 'v::linorder) \<Rightarrow> 'r list \<Rightarrow> 'r option" where
  "first_max_by f [] = None"
| "first_max_by f (x # xs) =
     (case first_max_by f xs of
        None \<Rightarrow> Some x
      | Some y \<Rightarrow> if f x < f y then Some y else Some x)"

text \<open>
  \<^verbatim>\<open>df.groupby(key)\<close> drops the rows whose key is missing and orders the groups by key.
\<close>

definition group_keys :: "'p day_row list \<Rightarrow> string list" where
  "group_keys df = sort (remdups (List.map_filter Key df))"

text \<open>
  \<^verbatim>\<open>['Date'].idxmax()\<close> within the group of key \<open>k\<close>: missing dates are skipped, and the
  result is the index label (the row position: \<^verbatim>\<open>read_csv\<close> numbers the rows from 0) of
  the first row with the greatest date. A group without any date has no such label.
\<close>

definition dated :: "'p day_row list \<Rightarrow> string \<Rightarrow> (nat \<times> int) list" where
  "dated df k =
     List.map_filter
       (\<lambda>(i, r). if Key r = Some k then map_option (Pair i) (Date r) else None)
       (enumerate 0 df)"

definition idxmax :: "'p day_row list \<Rightarrow> string \<Rightarrow> nat option" where
  "idxmax df k = map_option fst (first_max_by snd (dated df k))"

text \<open>
  \<^verbatim>\<open>df.loc[df.groupby(key)['Date'].idxmax()]\<close>: the rows at those labels, in group order.
  When some group has no date at all, pandas either raises in \<^verbatim>\<open>idxmax\<close> or yields NaN for
  the group and raises in \<^verbatim>\<open>.loc\<close>; both end in the \<^verbatim>\<open>except\<close> clause of the loader.
\<close>

definition latest :: "'p day_row list \<Rightarrow> load_error + 'p day_row list" where
  "latest df =
     (case those (map (idxmax df) (group_keys df)) of
        None \<Rightarrow> Inl LoadError
      | Some labels \<Rightarrow> Inr (map (\<lambda>i. df ! i) labels))"

subsection \<open>Dropping and coercing AQI (lines 80-81 and 87-88)\<close>

text \<open>\<^verbatim>\<open>pd.to_numeric(..., errors='coerce').fillna(0)\<close> on one cell.\<close>

fun coerce :: "cell \<Rightarrow> real" where
  "coerce (Num x) = x"
| "coerce (Txt s) = 0"
| "coerce Null = 0"

text \<open>
  \<^verbatim>\<open>dropna(subset=['AQI'])\<close> comes first, on the cells as read; the coercion then only sees
  the rows that are left. The city key of a row that \<^verbatim>\<open>groupby\<close> selected is never missing;
  the row of a missing key, which cannot occur there, is left out.
\<close>

definition city_obs_of :: "'p day_row \<Rightarrow> 'p city_obs option" where
  "city_obs_of r =
     (case Key r of
        None \<Rightarrow> None
      | Some c \<Rightarrow> Some \<lparr>City = c, CDate = Date r, CAQI = coerce (AQI r), COther = Other r\<rparr>)"

definition latest_city_data_of :: "'p day_row list \<Rightarrow> 'p city_obs list" where
  "latest_city_data_of latest_city =
     List.map_filter city_obs_of (filter (\<lambda>r. AQI r \<noteq> Null) latest_city)"

text \<open>
  \<^verbatim>\<open>merge(stations[['StationId', 'StationName', 'City']], on='StationId', how='left')\<close>:
  every left row, in order, once per matching metadata row (in metadata order), or once with
  missing name and city when nothing matches.
\<close>

definition merge_left :: "'p day_row list \<Rightarrow> station_meta list
    \<Rightarrow> ('p day_row \<times> station_meta option) list" where
  "merge_left left right =
     concat (map (\<lambda>l. case filter (\<lambda>m. StationId m = Key l) right of
                          [] \<Rightarrow> [(l, None)]
                        | ms \<Rightarrow> map (\<lambda>m. (l, Some m)) ms) left)"

definition station_obs_of :: "'p day_row \<times> station_meta option \<Rightarrow> 'p station_obs" where
  "station_obs_of lm =
     (case lm of (l, m) \<Rightarrow>
        \<lparr>StationName = (case m of None \<Rightarrow> None | Some x \<Rightarrow> MStationName x),
         SCity = (case m of None \<Rightarrow> None | Some x \<Rightarrow> MCity x),
         SDate = Date l, SAQI = coerce (AQI l), SOther = Other l\<rparr>)"

definition latest_station_data_of :: "'p day_row list \<Rightarrow> station_meta list \<Rightarrow> 'p station_obs list" where
  "latest_station_data_of latest_station stations =
     map station_obs_of (filter (\<lambda>lm. AQI (fst lm) \<noteq> Null) (merge_left latest_station stations))"

subsection \<open>Context sampling (lines 93-103)\<close>

text \<open>
  \<^verbatim>\<open>sort_values(by=col)\<close> puts the rows with a missing key last, in their order, and sorts
  the others by key. Python compares strings by code point, which is the order of their
  UTF-8 bytes. pandas sorts with an unstable algorithm by default; the model is a stable
  sort, so among rows with equal keys it fixes an order that pandas leaves open.
\<close>

definition keyed :: "('r \<Rightarrow> string option) \<Rightarrow> 'r list \<Rightarrow> (string \<times> 'r) list" where
  "keyed col df = List.map_filter (\<lambda>r. map_option (\<lambda>k. (k, r)) (col r)) df"

definition sort_values :: "('r \<Rightarrow> string option) \<Rightarrow> 'r list \<Rightarrow> 'r list" where
  "sort_values col df =
     map snd (sort_key fst (keyed col df)) @ filter (\<lambda>r. col r = None) df"

text \<open>\<^verbatim>\<open>drop_duplicates(subset=[col])\<close>: of the rows with the same key, the first stays.\<close>

fun drop_duplicates :: "('r \<Rightarrow> 'k) \<Rightarrow> 'r list \<Rightarrow> 'r list" where
  "drop_duplicates col [] = []"
| "drop_duplicates col (x # xs) = x # drop_duplicates col (filter (\<lambda>y. col y \<noteq> col x) xs)"

text \<open>
  The city context: the row of the first greatest AQI, then the first \<open>cap - 1\<close> other
  cities by name, without duplicates. The source fixes \<^verbatim>\<open>head(9)\<close>, that is \<open>cap = 10\<close>.
  \<^verbatim>\<open>idxmax\<close> raises on an empty table.
\<close>

definition city_sample :: "nat \<Rightarrow> 'p city_obs list \<Rightarrow> load_error + 'p city_obs list" where
  "city_sample cap latest_city_data =
     (case first_max_by CAQI latest_city_data of
        None \<Rightarrow> Inl LoadError
      | Some worst_city_row \<Rightarrow>
          (let sample_cities =
                 take (cap - 1)
                   (sort_key City (filter (\<lambda>r. City r \<noteq> City worst_city_row) latest_city_data))
           in Inr (drop_duplicates City (worst_city_row # sample_cities))))"

definition context_cities_df :: "'p city_obs list \<Rightarrow> load_error + 'p city_obs list" where
  "context_cities_df latest_city_data = city_sample 10 latest_city_data"

text \<open>
  The station context: the first \<open>cap\<close> stations by name. The source fixes \<^verbatim>\<open>head(15)\<close>.
\<close>

definition station_sample :: "nat \<Rightarrow> 'p station_obs list \<Rightarrow> 'p station_obs list" where
  "station_sample cap latest_station_data = take cap (sort_values StationName latest_station_data)"

definition context_stations_df :: "'p station_obs list \<Rightarrow> 'p station_obs list" where
  "context_stations_df latest_station_data = station_sample 15 latest_station_data"

subsection \<open>The loader\<close>

text \<open>
  What \<^verbatim>\<open>load_aqi_datasets\<close> returns, under the names \<^verbatim>\<open>main\<close> gives to the parts. The two
  contexts are the sampled tables; their rendering as markdown is not modelled.
  \<^verbatim>\<open>unique()\<close> keeps first occurrences, as \<open>drop_duplicates\<close> does.
\<close>

record 'p loaded =
  city_context :: "'p city_obs list"
  station_context :: "'p station_obs list"
  latest_city_df :: "'p city_obs list"
  latest_station_df :: "'p station_obs list"
  cities :: "string list"
  stations :: "string option list"

text \<open>
  The three files are taken to exist and to have the columns of the schema. Every exception
  inside the \<^verbatim>\<open>try\<close> block is reported with \<^verbatim>\<open>st.error\<close> and makes the loader return empty
  tables and no context; that outcome is \<open>Inl LoadError\<close>.
\<close>

definition load_aqi_datasets :: "'p day_row list \<Rightarrow> 'p day_row list \<Rightarrow> station_meta list
    \<Rightarrow> load_error + 'p loaded" where
  "load_aqi_datasets city_day station_day stations_csv =
     (case latest city_day of
        Inl e \<Rightarrow> Inl e
      | Inr latest_city \<Rightarrow>
          (let latest_city_data = latest_city_data_of latest_city
           in case latest station_day of
                Inl e \<Rightarrow> Inl e
              | Inr latest_station \<Rightarrow>
                  (let latest_station_data = latest_station_data_of latest_station stations_csv
                   in case context_cities_df latest_city_data of
                        Inl e \<Rightarrow> Inl e
                      | Inr ctx_cities \<Rightarrow>
                          Inr \<lparr>city_context = ctx_cities,
                               station_context = context_stations_df latest_station_data,
                               latest_city_df = latest_city_data,
                               latest_station_df = latest_station_data,
                               cities = drop_duplicates id (map City latest_city_data),
                               stations = drop_duplicates id (map StationName latest_station_data)\<rparr>)))"


section \<open>Specified properties\<close>

text \<open>
  Row \<open>i\<close> of \<open>df\<close> is the latest observation of entity \<open>k\<close>: it belongs to \<open>k\<close>, it has a
  date, no row of \<open>k\<close> has a later date, and no earlier row of \<open>k\<close> has the same date.
\<close>

definition is_latest :: "'p day_row list \<Rightarrow> string \<Rightarrow> nat \<Rightarrow> bool" where
  "is_latest df k i =
     (i < length df \<and> Key (df ! i) = Some k \<and>
      (case Date (df ! i) of
         None \<Rightarrow> False
       | Some d \<Rightarrow>
           (\<forall>j < length df. Key (df ! j) = Some k \<longrightarrow>
              (case Date (df ! j) of
                 None \<Rightarrow> True
               | Some d' \<Rightarrow> d' < d \<or> (d' = d \<and> i \<le> j)))))"

text \<open>
  The order of \<^verbatim>\<open>sort_values\<close> on a column of names: a name comes before every greater
  name, and every name before a missing one.
\<close>

definition name_le :: "string option \<Rightarrow> string option \<Rightarrow> bool" where
  "name_le a b =
     (case b of
        None \<Rightarrow> True
      | Some y \<Rightarrow> (case a of None \<Rightarrow> False | Some x \<Rightarrow> x \<le> y))"

text \<open>
  Row \<open>r\<close> of the batch log records the \<open>i\<close>-th call, for query \<open>q\<close>, whose \<^verbatim>\<open>try\<close> block
  did \<open>res\<close>: the identifier counts from 1, the latency is the service time reported by the
  endpoint when there is one (a number) and the local elapsed time otherwise, the status is SUCCESS
  exactly for a non-negative latency, and a call that raised is recorded with the error
  text and the latency -1.
\<close>

definition records_call :: "api_result \<Rightarrow> nat \<Rightarrow> string \<Rightarrow> batch_row \<Rightarrow> bool" where
  "records_call res i q r =
     (Query_ID r = i + 1 \<and> User_Query r = q
      \<and> (Status r = SUCCESS) = (Total_Response_Time_Seconds r \<ge> 0)
      \<and> (case res of
            Completed c (Some t) el \<Rightarrow>
              Groq_Response_Content r = c \<and> Total_Response_Time_Seconds r = t
          | Completed c None el \<Rightarrow>
              Groq_Response_Content r = c \<and> Total_Response_Time_Seconds r = el
          | CompletedNoneTime c el \<Rightarrow>
              Groq_Response_Content r = c \<and> Total_Response_Time_Seconds r = el
          | Raised e \<Rightarrow>
              Groq_Response_Content r = ''API_ERROR: '' @ e
              \<and> Total_Response_Time_Seconds r = -1 \<and> Status r = FAILURE))"

section \<open>Example tables\<close>

definition day :: "string \<Rightarrow> int \<Rightarrow> cell \<Rightarrow> unit day_row" where
  "day k d a = \<lparr>Key = Some k, Date = Some d, AQI = a, Other = ()\<rparr>"

definition city :: "string \<Rightarrow> int \<Rightarrow> real \<Rightarrow> unit city_obs" where
  "city c d a = \<lparr>City = c, CDate = Some d, CAQI = a, COther = ()\<rparr>"

definition station :: "string \<Rightarrow> real \<Rightarrow> unit station_obs" where
  "station n a = \<lparr>StationName = Some n, SCity = None, SDate = Some 0, SAQI = a, SOther = ()\<rparr>"

text \<open>A station row that found no metadata: the left merge leaves its name and city missing.\<close>

definition unnamed_station :: "real \<Rightarrow> unit station_obs" where
  "unnamed_station a = \<lparr>StationName = None, SCity = None, SDate = Some 0, SAQI = a, SOther = ()\<rparr>"

text \<open>Sixteen stations; the one last by name has by far the greatest AQI.\<close>

definition sixteen_stations :: "unit station_obs list" where
  "sixteen_stations =
     map (\<lambda>n. station n 50)
       [''S01'', ''S02'', ''S03'', ''S04'', ''S05'', ''S06'', ''S07'', ''S08'',
        ''S09'', ''S10'', ''S11'', ''S12'', ''S13'', ''S14'', ''S15'']
     @ [station ''S16'' 500]"


definition every_call_raises :: "nat \<Rightarrow> string \<Rightarrow> api_result" where
  "every_call_raises i q = Raised ''rate limit''"

text \<open>
  An endpoint whose second call (index 1) completes with a usage object whose
  \<^verbatim>\<open>total_time\<close> is \<^verbatim>\<open>None\<close>; the other calls report their service time.
\<close>

definition second_time_is_none :: "nat \<Rightarrow> string \<Rightarrow> api_result" where
  "second_time_is_none i q =
     (if i = 1 then CompletedNoneTime ''ok'' (1/2) else Completed ''ok'' (Some (1/4)) (1/2))"

text \<open>
  Day tables with an unparseable AQI (Delhi, ST1), a missing AQI (Mumbai, ST2) and a
  numeric one (Pune), and the metadata of station ST1.
\<close>

definition mixed_city_day :: "unit day_row list" where
  "mixed_city_day = [day ''Delhi'' 1 (Txt ''high''), day ''Mumbai'' 1 Null, day ''Pune'' 1 (Num 80)]"

definition mixed_station_day :: "unit day_row list" where
  "mixed_station_day = [day ''ST1'' 1 (Txt ''-''), day ''ST2'' 1 Null]"

definition mixed_stations_csv :: "station_meta list" where
  "mixed_stations_csv =
     [\<lparr>StationId = Some ''ST1'', MStationName = Some ''Anand Vihar'', MCity = Some ''Delhi''\<rparr>]"

text \<open>A metadata table that lists station ST1 twice, under two spellings of its name.\<close>

definition twice_listed_station :: "station_meta list" where
  "twice_listed_station =
     [\<lparr>StationId = Some ''ST1'', MStationName = Some ''Anand Vihar'', MCity = Some ''Delhi''\<rparr>,
      \<lparr>StationId = Some ''ST1'', MStationName = Some ''Anand Vihar, Delhi'', MCity = Some ''Delhi''\<rparr>]"

definition mixed_loaded :: "unit loaded" where
  "mixed_loaded =
     \<lparr>city_context = [city ''Pune'' 1 80, city ''Delhi'' 1 0],
      station_context =
        [\<lparr>StationName = Some ''Anand Vihar'', SCity = Some ''Delhi'', SDate = Some 1,
          SAQI = 0, SOther = ()\<rparr>],
      latest_city_df = [city ''Delhi'' 1 0, city ''Pune'' 1 80],
      latest_station_df =
        [\<lparr>StationName = Some ''Anand Vihar'', SCity = Some ''Delhi'', SDate = Some 1,
          SAQI = 0, SOther = ()\<rparr>],
      cities = [''Delhi'', ''Pune''],
      stations = [Some ''Anand Vihar'']\<rparr>"

section \<open>Auxiliary lemmas\<close>

subsection \<open>The batch loop\<close>

lemma uncaught_append: "uncaught (a @ b) = (uncaught a \<or> uncaught b)"
  by (simp add: uncaught_def List.map_filter_def)

lemma get_groq_response_and_time_caught:
  "\<not> uncaught (fst (get_groq_response_and_time res q))"
  by (cases res) (simp_all add: get_groq_response_and_time_def uncaught_def Let_def)

lemma get_groq_response_and_time_number:
  assumes "\<forall>c el. res \<noteq> CompletedNoneTime c el"
  shows "\<exists>t. snd (snd (get_groq_response_and_time res q)) = Some t"
  using assms
  by (cases res) (simp_all add: get_groq_response_and_time_def Let_def split: option.splits)

lemma run_queries_step:
  assumes "snd (snd (get_groq_response_and_time (chat i q) q)) = Some t"
  shows "run_queries chat i (q # qs) =
           (fst (get_groq_response_and_time (chat i q) q) @ fst (run_queries chat (Suc i) qs),
            \<lparr>Query_ID = i + 1, User_Query = q,
              Groq_Response_Content = fst (snd (get_groq_response_and_time (chat i q) q)),
              Total_Response_Time_Seconds = t,
              Status = (if t \<ge> 0 then SUCCESS else FAILURE)\<rparr>
            # snd (run_queries chat (Suc i) qs))"
  using assms by (simp add: Let_def case_prod_beta)

lemma records_call_head:
  assumes "\<forall>c el. chat i q \<noteq> CompletedNoneTime c el"
    and "snd (snd (get_groq_response_and_time (chat i q) q)) = Some t"
  shows "records_call (chat i q) i q
           \<lparr>Query_ID = i + 1, User_Query = q,
             Groq_Response_Content = fst (snd (get_groq_response_and_time (chat i q) q)),
             Total_Response_Time_Seconds = t,
             Status = (if t \<ge> 0 then SUCCESS else FAILURE)\<rparr>"
  using assms
  by (cases "chat i q")
     (auto simp: records_call_def get_groq_response_and_time_def Let_def split: option.splits)

lemma run_queries_timed:
  assumes "\<forall>k < length qs. \<forall>c el. chat (i + k) (qs ! k) \<noteq> CompletedNoneTime c el"
  shows "length (snd (run_queries chat i qs)) = length qs
         \<and> \<not> uncaught (fst (run_queries chat i qs))
         \<and> (\<forall>k < length qs.
               records_call (chat (i + k) (qs ! k)) (i + k) (qs ! k) (snd (run_queries chat i qs) ! k))"
  using assms
proof (induction qs arbitrary: i)
  case Nil
  then show ?case by (simp add: uncaught_def)
next
  case (Cons q qs)
  from Cons.prems have h0: "\<forall>c el. chat i q \<noteq> CompletedNoneTime c el" by force
  from get_groq_response_and_time_number[where res = "chat i q" and q = q, OF h0] obtain t where
    t: "snd (snd (get_groq_response_and_time (chat i q) q)) = Some t" by blast
  have "\<forall>k < length qs. \<forall>c el. chat (Suc i + k) (qs ! k) \<noteq> CompletedNoneTime c el"
  proof (intro allI impI)
    fix k c el assume "k < length qs"
    then have "Suc k < length (q # qs)" by simp
    with Cons.prems have "chat (i + Suc k) ((q # qs) ! Suc k) \<noteq> CompletedNoneTime c el" by blast
    then show "chat (Suc i + k) (qs ! k) \<noteq> CompletedNoneTime c el" by simp
  qed
  from Cons.IH[where i = "Suc i", OF this] have ih:
    "length (snd (run_queries chat (Suc i) qs)) = length qs"
    "\<not> uncaught (fst (run_queries chat (Suc i) qs))"
    "\<forall>k < length qs. records_call (chat (Suc i + k) (qs ! k)) (Suc i + k) (qs ! k)
        (snd (run_queries chat (Suc i) qs) ! k)"
    by blast+
  note step = run_queries_step[where chat = chat and i = i and q = q and qs = qs, OF t]
  have a: "length (snd (run_queries chat i (q # qs))) = length (q # qs)"
    unfolding step using ih(1) by simp
  have b: "\<not> uncaught (fst (run_queries chat i (q # qs)))"
    unfolding step using ih(2) get_groq_response_and_time_caught[of "chat i q" q]
    by (simp add: uncaught_append)
  have c: "\<forall>k < length (q # qs).
      records_call (chat (i + k) ((q # qs) ! k)) (i + k) ((q # qs) ! k)
        (snd (run_queries chat i (q # qs)) ! k)"
  proof (intro allI impI)
    fix k assume k: "k < length (q # qs)"
    show "records_call (chat (i + k) ((q # qs) ! k)) (i + k) ((q # qs) ! k)
        (snd (run_queries chat i (q # qs)) ! k)"
    proof (cases k)
      case 0
      with records_call_head[where chat = chat and i = i and q = q, OF h0 t] show ?thesis
        unfolding step by simp
    next
      case (Suc k')
      with k have "k' < length qs" by simp
      with ih(3) have "records_call (chat (Suc i + k') (qs ! k')) (Suc i + k') (qs ! k')
        (snd (run_queries chat (Suc i) qs) ! k')" by blast
      with Suc show ?thesis unfolding step by simp
    qed
  qed
  from a b c show ?case by blast
qed

lemma demo2_timed:
  assumes "\<not> key_absent GROQ_API_KEY" and "queries \<noteq> []"
    and "\<forall>i < length queries. \<forall>c el. chat i (queries ! i) \<noteq> CompletedNoneTime c el"
  shows "demo2 GROQ_API_KEY (Some queries) chat
         = (fst (run_queries chat 0 queries),
            Some (snd (run_queries chat 0 queries),
                  final_summary (length queries) (snd (run_queries chat 0 queries))))"
proof -
  from assms(3) have "\<forall>k < length queries. \<forall>c el. chat (0 + k) (queries ! k) \<noteq> CompletedNoneTime c el"
    by simp
  from run_queries_timed[where chat = chat, OF this]
  have "\<not> uncaught (fst (run_queries chat 0 queries))" by blast
  with assms(1,2) show ?thesis
    by (simp add: demo2_def demo2_main_def case_prod_beta)
qed

text \<open>
  Where every completed call reports a number or no service time at all, the run ends
  with one log row per query, in input order, each recording its call.
\<close>

lemma batch_results_timed:
  assumes "\<not> key_absent GROQ_API_KEY" and "queries \<noteq> []"
    and "\<forall>i < length queries. \<forall>c el. chat i (queries ! i) \<noteq> CompletedNoneTime c el"
  shows "\<exists>tr rows s. demo2 GROQ_API_KEY (Some queries) chat = (tr, Some (rows, s))
           \<and> length rows = length queries
           \<and> (\<forall>i < length queries. records_call (chat i (queries ! i)) i (queries ! i) (rows ! i))"
proof -
  from assms(3) have h: "\<forall>k < length queries. \<forall>c el. chat (0 + k) (queries ! k) \<noteq> CompletedNoneTime c el"
    by simp
  from run_queries_timed[where chat = chat, OF h] demo2_timed[where chat = chat, OF assms]
  show ?thesis by auto
qed

subsection \<open>First maximum and duplicates\<close>

lemma first_max_by_None: "(first_max_by f xs = None) = (xs = [])"
  by (induction xs) (auto split: option.splits)

lemma first_max_by_mem: "first_max_by f xs = Some y \<Longrightarrow> y \<in> set xs"
  by (induction xs arbitrary: y) (auto split: option.splits if_splits)

lemma first_max_by_ge: "first_max_by f xs = Some y \<Longrightarrow> x \<in> set xs \<Longrightarrow> f x \<le> f y"
proof (induction xs arbitrary: y)
  case Nil
  then show ?case by simp
next
  case (Cons a xs)
  then show ?case
    by (fastforce split: option.splits if_splits simp: first_max_by_None)
qed

lemma first_max_by_first:
  "first_max_by f xs = Some y \<Longrightarrow> \<exists>ps ss. xs = ps @ y # ss \<and> (\<forall>x \<in> set ps. f x < f y)"
proof (induction xs arbitrary: y)
  case Nil
  then show ?case by simp
next
  case (Cons a xs)
  show ?case
  proof (cases "first_max_by f xs")
    case None
    with Cons.prems have "y = a" by simp
    then have "a # xs = [] @ y # xs \<and> (\<forall>x \<in> set []. f x < f y)" by simp
    then show ?thesis by blast
  next
    case (Some z)
    show ?thesis
    proof (cases "f a < f z")
      case True
      with Some Cons.prems have yz: "y = z" by simp
      from Cons.IH[OF Some] obtain ps ss where
        "xs = ps @ z # ss" "\<forall>x \<in> set ps. f x < f z" by blast
      with True yz have "a # xs = (a # ps) @ y # ss \<and> (\<forall>x \<in> set (a # ps). f x < f y)" by simp
      then show ?thesis by blast
    next
      case False
      with Some Cons.prems have "y = a" by simp
      then have "a # xs = [] @ y # xs \<and> (\<forall>x \<in> set []. f x < f y)" by simp
      then show ?thesis by blast
    qed
  qed
qed

lemma drop_duplicates_subset: "set (drop_duplicates c xs) \<subseteq> set xs"
  by (induction c xs rule: drop_duplicates.induct) auto

lemma drop_duplicates_keys: "c ` set (drop_duplicates c xs) = c ` set xs"
  by (induction c xs rule: drop_duplicates.induct) auto

lemma drop_duplicates_distinct: "distinct (map c (drop_duplicates c xs))"
proof (induction c xs rule: drop_duplicates.induct)
  case (1 c)
  then show ?case by simp
next
  case (2 c x xs)
  have "c x \<notin> c ` set (drop_duplicates c (filter (\<lambda>y. c y \<noteq> c x) xs))"
    using drop_duplicates_subset[of c "filter (\<lambda>y. c y \<noteq> c x) xs"] by auto
  with 2 show ?case by simp
qed

lemma drop_duplicates_length: "length (drop_duplicates c xs) \<le> length xs"
proof (induction c xs rule: drop_duplicates.induct)
  case (1 c)
  then show ?case by simp
next
  case (2 c x xs)
  have "length (filter (\<lambda>y. c y \<noteq> c x) xs) \<le> length xs" by simp
  with 2 show ?case by (simp del: length_filter_le)
qed

lemma drop_duplicates_id: "distinct (map c xs) \<Longrightarrow> drop_duplicates c xs = xs"
proof (induction xs)
  case Nil
  then show ?case by simp
next
  case (Cons x xs)
  from Cons.prems have "c x \<notin> c ` set xs" by simp
  then have "\<forall>y \<in> set xs. c y \<noteq> c x" by (metis imageI)
  then have "filter (\<lambda>y. c y \<noteq> c x) xs = xs"
    by (simp add: filter_id_conv)
  with Cons show ?case by simp
qed

lemma sorted_map_filter: "sorted (map c xs) \<Longrightarrow> sorted (map c (filter P xs))"
  by (induction xs) auto

lemma drop_duplicates_sorted:
  fixes c :: "'r \<Rightarrow> 'k::linorder"
  shows "sorted (map c xs) \<Longrightarrow> sorted (map c (drop_duplicates c xs))"
proof (induction c xs rule: drop_duplicates.induct)
  case (1 c)
  then show ?case by simp
next
  case (2 c x xs)
  from "2.prems" have s: "sorted (map c xs)" and le: "\<forall>y \<in> set xs. c x \<le> c y" by auto
  have "sorted (map c (drop_duplicates c (filter (\<lambda>y. c y \<noteq> c x) xs)))"
    using "2.IH" sorted_map_filter[OF s] by simp
  moreover have "\<forall>y \<in> set (drop_duplicates c (filter (\<lambda>y. c y \<noteq> c x) xs)). c x \<le> c y"
    using le drop_duplicates_subset[of c "filter (\<lambda>y. c y \<noteq> c x) xs"] by auto
  ultimately show ?case by simp
qed

subsection \<open>The city sample\<close>

lemma city_sample_Inr:
  assumes "first_max_by CAQI df = Some w"
  shows "city_sample cap df =
    Inr (w # drop_duplicates City (take (cap - 1) (sort_key City (filter (\<lambda>r. City r \<noteq> City w) df))))"
proof -
  let ?S = "take (cap - 1) (sort_key City (filter (\<lambda>r. City r \<noteq> City w) df))"
  have "set ?S \<subseteq> set (sort_key City (filter (\<lambda>r. City r \<noteq> City w) df))"
    by (rule set_take_subset)
  then have "\<forall>y \<in> set ?S. City y \<noteq> City w" by auto
  then have "filter (\<lambda>y. City y \<noteq> City w) ?S = ?S" by (simp only: filter_id_conv)
  with assms show ?thesis by (simp add: city_sample_def)
qed

lemma city_sample_props:
  assumes "first_max_by CAQI df = Some w" and "1 \<le> cap"
  defines "rest \<equiv> drop_duplicates City (take (cap - 1) (sort_key City (filter (\<lambda>r. City r \<noteq> City w) df)))"
  shows "length (w # rest) \<le> cap"
    and "distinct (map City (w # rest))"
    and "sorted (map City rest)"
    and "set rest \<subseteq> set df"
proof -
  let ?O = "filter (\<lambda>r. City r \<noteq> City w) df"
  let ?S = "take (cap - 1) (sort_key City ?O)"
  have "length rest \<le> length ?S" unfolding rest_def by (rule drop_duplicates_length)
  also have "\<dots> \<le> cap - 1" by simp
  finally show "length (w # rest) \<le> cap" using assms(2) by simp
  have sub: "set rest \<subseteq> set ?S" unfolding rest_def by (rule drop_duplicates_subset)
  have "set ?S \<subseteq> set (sort_key City ?O)" by (rule set_take_subset)
  with sub have sub2: "set rest \<subseteq> set ?O" by auto
  then show "set rest \<subseteq> set df" by auto
  from sub2 have "City w \<notin> City ` set rest" by auto
  moreover have "distinct (map City rest)" unfolding rest_def by (rule drop_duplicates_distinct)
  ultimately show "distinct (map City (w # rest))" by simp
  have "sorted (map City (sort_key City ?O))" by simp
  then have "sorted (take (cap - 1) (map City (sort_key City ?O)))" by (rule sorted_wrt_take)
  then have "sorted (map City ?S)" by (simp only: take_map)
  then show "sorted (map City rest)" unfolding rest_def by (rule drop_duplicates_sorted)
qed

lemma city_sample_rest_distinct:
  assumes w: "first_max_by CAQI df = Some w" and d: "distinct (map City df)"
  shows "drop_duplicates City (take n (sort_key City (filter (\<lambda>r. City r \<noteq> City w) df)))
         = take n (sort_key City (filter (\<lambda>r. r \<noteq> w) df))"
proof -
  let ?O = "filter (\<lambda>r. City r \<noteq> City w) df"
  have win: "w \<in> set df" using w by (rule first_max_by_mem)
  have inj: "inj_on City (set df)" using d by (simp add: distinct_map)
  have "\<And>r. r \<in> set df \<Longrightarrow> (City r \<noteq> City w) = (r \<noteq> w)"
    using inj win by (meson inj_onD)
  then have eq: "?O = filter (\<lambda>r. r \<noteq> w) df" by (rule filter_cong[OF refl])
  have "distinct (map City ?O)" using d by (rule distinct_map_filter)
  then have "distinct (map City (sort_key City ?O))"
    by (simp add: distinct_map)
  then have "distinct (take n (map City (sort_key City ?O)))"
    by (rule distinct_take)
  then have "distinct (map City (take n (sort_key City ?O)))"
    by (simp only: take_map)
  then have "drop_duplicates City (take n (sort_key City ?O)) = take n (sort_key City ?O)"
    by (rule drop_duplicates_id)
  with eq show ?thesis by simp
qed

subsection \<open>Sorting by a column\<close>

lemma map_filter_append: "List.map_filter f (xs @ ys) = List.map_filter f xs @ List.map_filter f ys"
  by (simp add: List.map_filter_def)

lemma map_filter_Cons:
  "List.map_filter f (x # xs) = (case f x of None \<Rightarrow> List.map_filter f xs | Some y \<Rightarrow> y # List.map_filter f xs)"
  by (simp add: List.map_filter_def split: option.splits)

lemma set_map_filter: "set (List.map_filter f xs) = {y. \<exists>x \<in> set xs. f x = Some y}"
  by (induction xs) (auto simp: map_filter_Cons List.map_filter_simps split: option.splits)

lemma length_map_filter: "length (List.map_filter f xs) = length (filter (\<lambda>x. f x \<noteq> None) xs)"
  by (induction xs) (auto simp: map_filter_Cons List.map_filter_simps split: option.splits)

lemma keyed_inv: "p \<in> set (keyed col df) \<Longrightarrow> col (snd p) = Some (fst p) \<and> snd p \<in> set df"
  by (auto simp: keyed_def set_map_filter)

lemma snd_keyed: "snd ` set (keyed col df) = {r \<in> set df. col r \<noteq> None}"
  by (force simp: keyed_def set_map_filter)

lemma length_keyed: "length (keyed col df) = length (filter (\<lambda>r. col r \<noteq> None) df)"
  by (simp add: keyed_def length_map_filter)

lemma sort_values_length: "length (sort_values col df) = length df"
proof -
  have "length (filter (\<lambda>r. col r \<noteq> None) df) + length (filter (\<lambda>r. col r = None) df) = length df"
    using sum_length_filter_compl[of "\<lambda>r. col r \<noteq> None" df] by simp
  then show ?thesis by (simp add: sort_values_def length_keyed)
qed

lemma sort_values_set: "set (sort_values col df) = set df"
proof -
  have "set (sort_values col df) = snd ` set (keyed col df) \<union> {r \<in> set df. col r = None}"
    by (simp add: sort_values_def)
  also have "\<dots> = set df" by (auto simp: snd_keyed)
  finally show ?thesis .
qed

lemma map_filter_snd_keys:
  "(\<forall>p \<in> set L. col (snd p) = Some (fst p)) \<Longrightarrow> List.map_filter col (map snd L) = map fst L"
  by (induction L) (auto simp: map_filter_Cons List.map_filter_simps)

lemma map_filter_all_None: "(\<forall>x \<in> set xs. f x = None) \<Longrightarrow> List.map_filter f xs = []"
  by (induction xs) (auto simp: map_filter_Cons List.map_filter_simps)

lemma sort_values_keys: "sorted (List.map_filter col (sort_values col df))"
proof -
  have "\<forall>p \<in> set (sort_key fst (keyed col df)). col (snd p) = Some (fst p)"
    using keyed_inv[of _ col df] by simp
  then have "List.map_filter col (map snd (sort_key fst (keyed col df))) = map fst (sort_key fst (keyed col df))"
    by (rule map_filter_snd_keys)
  moreover have "List.map_filter col (filter (\<lambda>r. col r = None) df) = []"
    by (rule map_filter_all_None) simp
  ultimately show ?thesis
    by (simp add: sort_values_def map_filter_append)
qed

lemma sorted_map_filter_take:
  fixes f :: "'r \<Rightarrow> ('k::linorder) option"
  assumes "sorted (List.map_filter f xs)"
  shows "sorted (List.map_filter f (take n xs))"
proof -
  have "List.map_filter f xs = List.map_filter f (take n xs) @ List.map_filter f (drop n xs)"
    by (metis append_take_drop_id map_filter_append)
  with assms show ?thesis by (simp add: sorted_append)
qed

lemma station_sample_props:
  shows "length (station_sample cap df) \<le> cap"
    and "sorted (List.map_filter StationName (station_sample cap df))"
    and "set (station_sample cap df) \<subseteq> set df"
    and "length df \<le> cap \<Longrightarrow> set (station_sample cap df) = set df"
proof -
  show "length (station_sample cap df) \<le> cap" by (simp add: station_sample_def)
  have "sorted (List.map_filter StationName (sort_values StationName df))"
    by (simp add: sort_values_keys)
  then show "sorted (List.map_filter StationName (station_sample cap df))"
    unfolding station_sample_def by (rule sorted_map_filter_take)
  show "set (station_sample cap df) \<subseteq> set df"
    unfolding station_sample_def using set_take_subset[of cap "sort_values StationName df"]
    by (simp add: sort_values_set)
  show "set (station_sample cap df) = set df" if "length df \<le> cap"
    using that by (simp add: station_sample_def sort_values_length sort_values_set)
qed

subsection \<open>Latest row per entity\<close>

lemma those_eq_Some: "(those xs = Some ys) = (xs = map Some ys)"
  by (induction xs arbitrary: ys) (auto split: option.splits)

lemma dated_mem:
  "((i, d) \<in> set (dated df k)) = (i < length df \<and> Key (df ! i) = Some k \<and> Date (df ! i) = Some d)"
proof
  assume "(i, d) \<in> set (dated df k)"
  then show "i < length df \<and> Key (df ! i) = Some k \<and> Date (df ! i) = Some d"
    by (auto simp: dated_def set_map_filter in_set_enumerate_eq split: if_splits)
next
  assume a: "i < length df \<and> Key (df ! i) = Some k \<and> Date (df ! i) = Some d"
  then have "(i, df ! i) \<in> set (enumerate 0 df)" by (simp add: in_set_enumerate_eq)
  moreover have "(case (i, df ! i) of (i, r) \<Rightarrow> if Key r = Some k then map_option (Pair i) (Date r) else None) = Some (i, d)"
    using a by simp
  ultimately show "(i, d) \<in> set (dated df k)"
    unfolding dated_def set_map_filter by blast
qed

lemma sorted_fst_map_filter:
  assumes "sorted_wrt (<) (map fst xs)" and "\<And>p q. g p = Some q \<Longrightarrow> fst q = fst p"
  shows "sorted_wrt (<) (map fst (List.map_filter g xs))"
  using assms(1)
proof (induction xs)
  case Nil
  then show ?case by (simp add: List.map_filter_simps)
next
  case (Cons a xs)
  have lt: "\<forall>q \<in> set (List.map_filter g xs). fst a < fst q"
    using Cons.prems assms(2) by (fastforce simp: set_map_filter)
  from Cons have ih: "sorted_wrt (<) (map fst (List.map_filter g xs))" by simp
  show ?case
  proof (cases "g a")
    case None
    with ih show ?thesis by (simp add: map_filter_Cons)
  next
    case (Some q)
    then have "fst q = fst a" by (rule assms(2))
    with Some ih lt show ?thesis by (simp add: map_filter_Cons)
  qed
qed

lemma dated_sorted: "sorted_wrt (<) (map fst (dated df k))"
  unfolding dated_def
proof (rule sorted_fst_map_filter)
  show "sorted_wrt (<) (map fst (enumerate 0 df))"
    by (simp add: map_fst_enumerate)
next
  fix p q
  assume "(case p of (i, r) \<Rightarrow> if Key r = Some k then map_option (Pair i) (Date r) else None) = Some q"
  then show "fst q = fst p" by (auto split: prod.splits if_splits)
qed

lemma idxmax_Some:
  assumes "idxmax df k = Some i"
  shows "is_latest df k i"
proof -
  from assms obtain d where fm: "first_max_by snd (dated df k) = Some (i, d)"
    by (auto simp: idxmax_def)
  from first_max_by_mem[OF fm] have mem: "i < length df" "Key (df ! i) = Some k" "Date (df ! i) = Some d"
    by (simp_all add: dated_mem)
  from first_max_by_first[OF fm] obtain ps ss where
    split: "dated df k = ps @ (i, d) # ss" and before: "\<forall>x \<in> set ps. snd x < d" by auto
  have srt: "sorted_wrt (<) (map fst (ps @ (i, d) # ss))"
    using dated_sorted[of df k] split by simp
  have "d' < d \<or> (d' = d \<and> i \<le> j)"
    if j: "j < length df" "Key (df ! j) = Some k" "Date (df ! j) = Some d'" for j d'
  proof -
    from j have "(j, d') \<in> set (dated df k)" by (simp add: dated_mem)
    then consider "(j, d') \<in> set ps" | "(j, d') = (i, d)" | "(j, d') \<in> set ss"
      using split by auto
    then show ?thesis
    proof cases
      case 1
      with before show ?thesis by auto
    next
      case 2
      then show ?thesis by simp
    next
      case 3
      then have "i < j" using srt by (auto simp: sorted_wrt_append)
      moreover have "d' \<le> d" using first_max_by_ge[OF fm, of "(j, d')"] split 3 by simp
      ultimately show ?thesis by auto
    qed
  qed
  with mem show ?thesis
    by (auto simp: is_latest_def split: option.splits)
qed

lemma idxmax_None:
  "(idxmax df k = None) = (\<forall>r \<in> set df. Key r = Some k \<longrightarrow> Date r = None)"
proof -
  have "(idxmax df k = None) = (dated df k = [])"
    by (simp add: idxmax_def first_max_by_None)
  also have "\<dots> = (\<forall>i d. (i, d) \<notin> set (dated df k))"
    by (cases "dated df k") auto
  also have "\<dots> = (\<forall>r \<in> set df. Key r = Some k \<longrightarrow> Date r = None)"
    unfolding dated_mem by (metis in_set_conv_nth option.exhaust option.distinct(1))
  finally show ?thesis .
qed

lemma group_keys_props:
  "distinct (group_keys df)" "sorted (group_keys df)"
  "set (group_keys df) = {k. \<exists>r \<in> set df. Key r = Some k}"
  by (auto simp: group_keys_def set_map_filter)

lemma latest_Inr:
  assumes "latest df = Inr rows"
  shows "length rows = length (group_keys df)"
    and "\<forall>n < length rows. \<exists>i. is_latest df (group_keys df ! n) i \<and> rows ! n = df ! i"
    and "map Key rows = map Some (group_keys df)"
proof -
  from assms obtain labels where th: "those (map (idxmax df) (group_keys df)) = Some labels"
    and rows: "rows = map (\<lambda>i. df ! i) labels"
    by (auto simp: latest_def split: option.splits)
  from th have m: "map (idxmax df) (group_keys df) = map Some labels" by (simp add: those_eq_Some)
  then have len: "length labels = length (group_keys df)" by (metis length_map)
  with rows show "length rows = length (group_keys df)" by simp
  have nth: "idxmax df (group_keys df ! n) = Some (labels ! n)" if "n < length labels" for n
    using m that len by (metis nth_map)
  show a: "\<forall>n < length rows. \<exists>i. is_latest df (group_keys df ! n) i \<and> rows ! n = df ! i"
    using nth rows idxmax_Some by fastforce
  show "map Key rows = map Some (group_keys df)"
  proof (rule nth_equalityI)
    show "length (map Key rows) = length (map Some (group_keys df))" using rows len by simp
  next
    fix n assume "n < length (map Key rows)"
    then have n: "n < length rows" by simp
    with a obtain i where "is_latest df (group_keys df ! n) i" "rows ! n = df ! i" by blast
    then have "Key (rows ! n) = Some (group_keys df ! n)" by (simp add: is_latest_def)
    with n rows len show "map Key rows ! n = map Some (group_keys df) ! n" by simp
  qed
qed

lemma those_None: "(those xs = None) = (None \<in> set xs)"
  by (induction xs) (auto split: option.splits)

lemma latest_fails: "(\<exists>rows. latest df = Inr rows) = (those (map (idxmax df) (group_keys df)) \<noteq> None)"
  by (cases "those (map (idxmax df) (group_keys df))") (simp_all add: latest_def)

lemma none_in_map: "(None \<in> set (map f ks)) = (\<exists>k \<in> set ks. f k = None)"
  by (induction ks) auto

lemma latest_total:
  "(\<exists>rows. latest df = Inr rows) = (\<forall>k \<in> set (group_keys df). \<exists>r \<in> set df. Key r = Some k \<and> Date r \<noteq> None)"
  unfolding latest_fails those_None none_in_map idxmax_None by simp

subsection \<open>The loader\<close>

lemma latest_city_data_of_mem:
  "(ob \<in> set (latest_city_data_of rows)) = (\<exists>r \<in> set rows. AQI r \<noteq> Null \<and> city_obs_of r = Some ob)"
  by (auto simp: latest_city_data_of_def set_map_filter)

lemma latest_city_data_of_length:
  assumes "\<forall>r \<in> set rows. Key r \<noteq> None"
  shows "length (latest_city_data_of rows) = length (filter (\<lambda>r. AQI r \<noteq> Null) rows)"
proof -
  have "\<forall>x \<in> set (filter (\<lambda>r. AQI r \<noteq> Null) rows). city_obs_of x \<noteq> None"
    using assms by (auto simp: city_obs_of_def split: option.splits)
  then have "filter (\<lambda>x. city_obs_of x \<noteq> None) (filter (\<lambda>r. AQI r \<noteq> Null) rows) = filter (\<lambda>r. AQI r \<noteq> Null) rows"
    by (simp only: filter_id_conv)
  then show ?thesis by (simp add: latest_city_data_of_def length_map_filter)
qed

lemma latest_city_data_of_cities:
  "map City (latest_city_data_of rows) = List.map_filter Key (filter (\<lambda>r. AQI r \<noteq> Null) rows)"
  unfolding latest_city_data_of_def
  by (induction rows) (auto simp: map_filter_Cons List.map_filter_simps city_obs_of_def split: option.splits)

lemma distinct_map_filter_keys:
  "distinct (List.map_filter Key rows) \<Longrightarrow> distinct (List.map_filter Key (filter P rows))"
proof (induction rows)
  case Nil
  then show ?case by (simp add: List.map_filter_simps)
next
  case (Cons r rows)
  have "set (List.map_filter Key (filter P rows)) \<subseteq> set (List.map_filter Key rows)"
    by (auto simp: set_map_filter)
  with Cons show ?case
    by (auto simp: map_filter_Cons split: option.splits)
qed

lemma map_filter_map_Some: "map f xs = map Some ks \<Longrightarrow> List.map_filter f xs = ks"
  by (induction xs arbitrary: ks) (auto simp: map_filter_Cons List.map_filter_simps)

lemma latest_city_data_distinct:
  assumes "latest df = Inr rows"
  shows "distinct (map City (latest_city_data_of rows))"
proof -
  have "List.map_filter Key rows = group_keys df"
    using latest_Inr(3)[OF assms] by (rule map_filter_map_Some)
  then have "distinct (List.map_filter Key rows)" by (simp add: group_keys_props)
  then show ?thesis unfolding latest_city_data_of_cities by (rule distinct_map_filter_keys)
qed

lemma latest_keys_inj:
  assumes "latest df = Inr rows" "r \<in> set rows" "r' \<in> set rows" "Key r = Key r'"
  shows "r = r'"
proof -
  have "distinct (map Key rows)"
    using latest_Inr(3)[OF assms(1)] by (simp add: distinct_map group_keys_props)
  then have "inj_on Key (set rows)" by (simp add: distinct_map)
  with assms(2-4) show ?thesis by (meson inj_onD)
qed

lemma null_aqi_city_absent:
  assumes "latest df = Inr rows" "r \<in> set rows" "Key r = Some c" "AQI r = Null"
  shows "c \<notin> City ` set (latest_city_data_of rows)"
proof
  assume "c \<in> City ` set (latest_city_data_of rows)"
  then obtain ob where "ob \<in> set (latest_city_data_of rows)" "City ob = c" by auto
  then obtain r' where r': "r' \<in> set rows" "AQI r' \<noteq> Null" "city_obs_of r' = Some ob"
    by (auto simp: latest_city_data_of_mem)
  with \<open>City ob = c\<close> have "Key r' = Some c"
    by (auto simp: city_obs_of_def split: option.splits)
  with assms r' have "r = r'" by (intro latest_keys_inj[OF assms(1)]) simp_all
  with assms(4) r'(2) show False by simp
qed

lemma load_Inr:
  assumes "load_aqi_datasets cd sd st = Inr L"
  shows "\<exists>lc ls ctx. latest cd = Inr lc \<and> latest sd = Inr ls
          \<and> city_sample 10 (latest_city_data_of lc) = Inr ctx
          \<and> city_context L = ctx
          \<and> station_context L = station_sample 15 (latest_station_data_of ls st)
          \<and> latest_city_df L = latest_city_data_of lc
          \<and> latest_station_df L = latest_station_data_of ls st"
  using assms
  by (auto simp: load_aqi_datasets_def Let_def context_cities_df_def context_stations_df_def
           split: sum.splits)

lemma load_succeeds:
  assumes "latest cd = Inr lc" "latest sd = Inr ls" "latest_city_data_of lc \<noteq> []"
  shows "\<exists>L. load_aqi_datasets cd sd st = Inr L"
proof -
  from assms(3) obtain w where "first_max_by CAQI (latest_city_data_of lc) = Some w"
    by (cases "first_max_by CAQI (latest_city_data_of lc)") (auto simp: first_max_by_None)
  then have "\<exists>ctx. city_sample 10 (latest_city_data_of lc) = Inr ctx"
    by (simp add: city_sample_Inr)
  with assms(1,2) show ?thesis
    by (auto simp: load_aqi_datasets_def Let_def context_cities_df_def)
qed

lemma city_sample_worst:
  assumes "latest_city_data \<noteq> []"
  shows "\<exists>worst. first_max_by CAQI latest_city_data = Some worst
           \<and> worst \<in> set latest_city_data
           \<and> (\<forall>r \<in> set latest_city_data. CAQI r \<le> CAQI worst)
           \<and> city_sample cap latest_city_data =
               Inr (worst # drop_duplicates City (take (cap - 1)
                      (sort_key City (filter (\<lambda>r. City r \<noteq> City worst) latest_city_data))))"
proof -
  from assms obtain w where w: "first_max_by CAQI latest_city_data = Some w"
    by (cases "first_max_by CAQI latest_city_data") (auto simp: first_max_by_None)
  have "w \<in> set latest_city_data" using w by (rule first_max_by_mem)
  moreover have "\<forall>r \<in> set latest_city_data. CAQI r \<le> CAQI w"
    using first_max_by_ge[OF w] by blast
  moreover note city_sample_Inr[OF w, of cap] w
  ultimately show ?thesis by blast
qed

lemma city_sample_nonempty:
  assumes "city_sample cap df = Inr ctx"
  shows "df \<noteq> []"
  using assms by (auto simp: city_sample_def)

lemma latest_city_data_of_city_set:
  assumes "\<forall>r \<in> set rows. Key r \<noteq> None"
  shows "set (map City (latest_city_data_of rows)) = {c. \<exists>r \<in> set rows. Key r = Some c \<and> AQI r \<noteq> Null}"
  unfolding latest_city_data_of_cities
  by (auto simp: set_map_filter)

lemma latest_keys_Some:
  assumes "latest df = Inr rows"
  shows "\<forall>r \<in> set rows. Key r \<noteq> None"
proof
  fix r assume "r \<in> set rows"
  then have "Key r \<in> set (map Key rows)" by simp
  then have "Key r \<in> set (map Some (group_keys df))"
    using latest_Inr(3)[OF assms] by simp
  then show "Key r \<noteq> None" by auto
qed

lemma latest_tie_example:
  "latest [day ''Delhi'' 1 (Num 450), day ''Delhi'' 2 (Num 420), day ''Delhi'' 2 (Txt ''x''),
           day ''Mumbai'' 2 (Num 80)]
   = Inr [day ''Delhi'' 2 (Num 420), day ''Mumbai'' 2 (Num 80)]"
  by (simp add: latest_def group_keys_def idxmax_def dated_def day_def enumerate_eq_zip upt_rec)

lemma city_row_kept:
  assumes "r \<in> set rows" "Key r = Some c" "AQI r \<noteq> Null"
  shows "\<lparr>City = c, CDate = Date r, CAQI = coerce (AQI r), COther = Other r\<rparr> \<in> set (latest_city_data_of rows)"
  using assms by (auto simp: latest_city_data_of_mem city_obs_of_def intro!: bexI[of _ r])

lemma mixed_load:
  "load_aqi_datasets mixed_city_day mixed_station_day mixed_stations_csv = Inr mixed_loaded"
  by (simp add: load_aqi_datasets_def latest_def group_keys_def idxmax_def dated_def day_def city_def
      enumerate_eq_zip upt_rec latest_city_data_of_def city_obs_of_def latest_station_data_of_def
      merge_left_def station_obs_of_def context_cities_df_def city_sample_def context_stations_df_def
      station_sample_def sort_values_def keyed_def Let_def
      mixed_city_day_def mixed_station_day_def mixed_stations_csv_def mixed_loaded_def)

lemma map_snd_keyed: "map snd (keyed col df) = filter (\<lambda>r. col r \<noteq> None) df"
  by (induction df) (auto simp: keyed_def map_filter_Cons List.map_filter_simps split: option.splits)

lemma sort_values_mset: "mset (sort_values col df) = mset df"
proof -
  have "mset (map snd (sort_key fst (keyed col df))) = mset (map snd (keyed col df))"
    by simp
  then have "mset (sort_values col df)
      = mset (filter (\<lambda>r. col r \<noteq> None) df) + mset (filter (\<lambda>r. col r = None) df)"
    by (simp add: sort_values_def map_snd_keyed)
  also have "\<dots> = mset df"
    using multiset_partition[of "mset df" "\<lambda>r. col r \<noteq> None"] by simp
  finally show ?thesis .
qed

lemma sorted_keyed_names:
  assumes "\<forall>p \<in> set L. col (snd p) = Some (fst p)" and "sorted (map fst L)"
  shows "sorted_wrt (\<lambda>r s. name_le (col r) (col s)) (map snd L)"
  using assms
proof (induction L)
  case Nil
  then show ?case by simp
next
  case (Cons p L)
  then have "\<forall>q \<in> set L. name_le (col (snd p)) (col (snd q))"
    by (auto simp: name_le_def)
  with Cons show ?case by simp
qed

lemma sort_values_sorted: "sorted_wrt (\<lambda>r s. name_le (col r) (col s)) (sort_values col df)"
proof -
  let ?L = "sort_key fst (keyed col df)"
  have inv: "\<forall>p \<in> set ?L. col (snd p) = Some (fst p)"
    using keyed_inv[of _ col df] by simp
  have a: "sorted_wrt (\<lambda>r s. name_le (col r) (col s)) (map snd ?L)"
    by (rule sorted_keyed_names[OF inv]) simp
  have b: "sorted_wrt (\<lambda>r s. name_le (col r) (col s)) (filter (\<lambda>r. col r = None) df)"
    by (induction df) (auto simp: name_le_def)
  have c: "\<forall>x \<in> set (map snd ?L). \<forall>y \<in> set (filter (\<lambda>r. col r = None) df). name_le (col x) (col y)"
    by (auto simp: name_le_def)
  from a b c show ?thesis
    unfolding sort_values_def sorted_wrt_append by blast
qed

lemma station_sample_prefix:
  "\<exists>rest. mset (station_sample cap df @ rest) = mset df
          \<and> sorted_wrt (\<lambda>r s. name_le (StationName r) (StationName s)) (station_sample cap df @ rest)
          \<and> length (station_sample cap df) = min cap (length df)"
proof -
  let ?rest = "drop cap (sort_values StationName df)"
  have e: "station_sample cap df @ ?rest = sort_values StationName df"
    by (simp add: station_sample_def)
  have "mset (station_sample cap df @ ?rest) = mset df"
    unfolding e by (rule sort_values_mset)
  moreover have "sorted_wrt (\<lambda>r s. name_le (StationName r) (StationName s)) (station_sample cap df @ ?rest)"
    unfolding e by (rule sort_values_sorted)
  moreover have "length (station_sample cap df) = min cap (length df)"
    by (simp add: station_sample_def sort_values_length min.commute)
  ultimately show ?thesis by blast
qed

lemma city_sample_first_worst:
  assumes "latest_city_data \<noteq> []"
  shows "\<exists>worst rest. city_sample cap latest_city_data = Inr (worst # rest)
          \<and> first_max_by CAQI latest_city_data = Some worst
          \<and> worst \<in> set latest_city_data
          \<and> (\<forall>r \<in> set latest_city_data. CAQI r \<le> CAQI worst)
          \<and> (\<exists>before after. latest_city_data = before @ worst # after
                \<and> (\<forall>r \<in> set before. CAQI r < CAQI worst))"
proof -
  from city_sample_worst[OF assms, of cap] obtain w where
    w: "first_max_by CAQI latest_city_data = Some w" "w \<in> set latest_city_data"
       "\<forall>r \<in> set latest_city_data. CAQI r \<le> CAQI w"
    and cs: "\<exists>rest. city_sample cap latest_city_data = Inr (w # rest)" by blast
  from first_max_by_first[OF w(1)] have
    "\<exists>before after. latest_city_data = before @ w # after \<and> (\<forall>r \<in> set before. CAQI r < CAQI w)" .
  with w cs show ?thesis by blast
qed

lemma filter_key_unique:
  "distinct (List.map_filter f xs) \<Longrightarrow> length (filter (\<lambda>m. f m = Some k) xs) \<le> 1"
proof (induction xs)
  case Nil
  then show ?case by simp
next
  case (Cons x xs)
  show ?case
  proof (cases "f x = Some k")
    case True
    with Cons.prems have "k \<notin> set (List.map_filter f xs)" by (simp add: map_filter_Cons)
    then have "filter (\<lambda>m. f m = Some k) xs = []"
      by (auto simp: set_map_filter filter_empty_conv)
    with True show ?thesis by simp
  next
    case False
    with Cons show ?thesis by (cases "f x") (simp_all add: map_filter_Cons)
  qed
qed

lemma merge_left_fst:
  assumes "distinct (List.map_filter StationId right)" and "\<forall>l \<in> set left. Key l \<noteq> None"
  shows "map fst (merge_left left right) = left"
  using assms(2)
proof (induction left)
  case Nil
  then show ?case by (simp add: merge_left_def)
next
  case (Cons l left)
  then obtain k where k: "Key l = Some k" by auto
  have "length (filter (\<lambda>m. StationId m = Some k) right) \<le> 1"
    by (rule filter_key_unique[OF assms(1)])
  then have one: "map fst (case filter (\<lambda>m. StationId m = Key l) right of
                          [] \<Rightarrow> [(l, None)]
                        | ms \<Rightarrow> map (\<lambda>m. (l, Some m)) ms) = [l]"
    unfolding k by (cases "filter (\<lambda>m. StationId m = Some k) right") (auto simp: length_Suc_conv)
  from Cons have "map fst (merge_left left right) = left" by simp
  with one show ?case by (simp add: merge_left_def)
qed

lemma merged_station_rows:
  assumes "latest df = Inr ls" and "distinct (List.map_filter StationId right)"
  shows "map fst (filter (\<lambda>lm. AQI (fst lm) \<noteq> Null) (merge_left ls right))
           = filter (\<lambda>r. AQI r \<noteq> Null) ls
         \<and> distinct (map (\<lambda>lm. Key (fst lm))
              (filter (\<lambda>lm. AQI (fst lm) \<noteq> Null) (merge_left ls right)))"
proof -
  have m: "map fst (merge_left ls right) = ls"
    by (rule merge_left_fst[OF assms(2) latest_keys_Some[OF assms(1)]])
  have "map fst (filter (\<lambda>lm. AQI (fst lm) \<noteq> Null) (merge_left ls right))
      = filter (\<lambda>r. AQI r \<noteq> Null) (map fst (merge_left ls right))"
    by (simp add: filter_map comp_def)
  with m have a: "map fst (filter (\<lambda>lm. AQI (fst lm) \<noteq> Null) (merge_left ls right))
           = filter (\<lambda>r. AQI r \<noteq> Null) ls" by simp
  have "distinct (map Key ls)"
    using latest_Inr(3)[OF assms(1)] by (simp add: distinct_map group_keys_props)
  then have "distinct (map Key (filter (\<lambda>r. AQI r \<noteq> Null) ls))"
    by (rule distinct_map_filter)
  then have "distinct (map Key (map fst (filter (\<lambda>lm. AQI (fst lm) \<noteq> Null) (merge_left ls right))))"
    unfolding a .
  then have "distinct (map (\<lambda>lm. Key (fst lm))
           (filter (\<lambda>lm. AQI (fst lm) \<noteq> Null) (merge_left ls right)))"
    by (simp add: comp_def)
  with a show ?thesis by blast
qed

section \<open>Theorems\<close>

text \<open>
  C1 (amended). For every non-empty latest city table and every cap of at least 1, the
  city sample starts with the row of the greatest AQI, and when several rows share the
  greatest AQI with the first of them in table order; so does the city context the loader
  returns, whose cap is 10. The station sample has no such guarantee: it is the first
  stations by name, that is, followed by the rows it leaves out it is the whole table in
  ascending order of station name, rows without a name last, and it has cap rows or the
  whole table when that is shorter (cap is 15 in the loader). It therefore holds the
  station of the greatest AQI whenever the table has at most cap stations.
\<close>

theorem city_context_worst_first:
  "(latest_city_data \<noteq> [] \<and> 1 \<le> cap \<longrightarrow>
      (\<exists>worst rest. city_sample cap latest_city_data = Inr (worst # rest)
          \<and> first_max_by CAQI latest_city_data = Some worst
          \<and> worst \<in> set latest_city_data
          \<and> (\<forall>r \<in> set latest_city_data. CAQI r \<le> CAQI worst)
          \<and> (\<exists>before after. latest_city_data = before @ worst # after
                \<and> (\<forall>r \<in> set before. CAQI r < CAQI worst))))
   \<and> (load_aqi_datasets city_day station_day stations_csv = Inr L \<longrightarrow>
      (\<exists>worst rest. city_context L = worst # rest
          \<and> worst \<in> set (latest_city_df L)
          \<and> (\<forall>r \<in> set (latest_city_df L). CAQI r \<le> CAQI worst)
          \<and> (\<exists>before after. latest_city_df L = before @ worst # after
                \<and> (\<forall>r \<in> set before. CAQI r < CAQI worst)))
      \<and> (\<exists>rest. mset (station_context L @ rest) = mset (latest_station_df L)
            \<and> sorted_wrt (\<lambda>r s. name_le (StationName r) (StationName s)) (station_context L @ rest)
            \<and> length (station_context L) = min 15 (length (latest_station_df L))))
   \<and> (\<exists>rest. mset (station_sample station_cap latest_station_data @ rest) = mset latest_station_data
          \<and> sorted_wrt (\<lambda>r s. name_le (StationName r) (StationName s))
                (station_sample station_cap latest_station_data @ rest)
          \<and> length (station_sample station_cap latest_station_data)
                = min station_cap (length latest_station_data))
   \<and> (length latest_station_data \<le> station_cap \<longrightarrow>
        set (station_sample station_cap latest_station_data) = set latest_station_data)"
proof (intro conjI impI)
  assume "latest_city_data \<noteq> [] \<and> 1 \<le> cap"
  then have "latest_city_data \<noteq> []" by simp
  then show "\<exists>worst rest. city_sample cap latest_city_data = Inr (worst # rest)
          \<and> first_max_by CAQI latest_city_data = Some worst
          \<and> worst \<in> set latest_city_data
          \<and> (\<forall>r \<in> set latest_city_data. CAQI r \<le> CAQI worst)
          \<and> (\<exists>before after. latest_city_data = before @ worst # after
                \<and> (\<forall>r \<in> set before. CAQI r < CAQI worst))"
    by (rule city_sample_first_worst)
next
  assume "load_aqi_datasets city_day station_day stations_csv = Inr L"
  from load_Inr[OF this] obtain lc ctx where
    c: "city_sample 10 (latest_city_data_of lc) = Inr ctx" "city_context L = ctx"
       "latest_city_df L = latest_city_data_of lc" by blast
  from c(1) have "latest_city_data_of lc \<noteq> []" by (rule city_sample_nonempty)
  from city_sample_first_worst[OF this, of 10] c
  show "\<exists>worst rest. city_context L = worst # rest
          \<and> worst \<in> set (latest_city_df L)
          \<and> (\<forall>r \<in> set (latest_city_df L). CAQI r \<le> CAQI worst)
          \<and> (\<exists>before after. latest_city_df L = before @ worst # after
                \<and> (\<forall>r \<in> set before. CAQI r < CAQI worst))"
    by auto
next
  assume "load_aqi_datasets city_day station_day stations_csv = Inr L"
  from load_Inr[OF this] obtain ls where
    "station_context L = station_sample 15 (latest_station_data_of ls stations_csv)"
    "latest_station_df L = latest_station_data_of ls stations_csv" by blast
  with station_sample_prefix[of 15 "latest_station_data_of ls stations_csv"]
  show "\<exists>rest. mset (station_context L @ rest) = mset (latest_station_df L)
            \<and> sorted_wrt (\<lambda>r s. name_le (StationName r) (StationName s)) (station_context L @ rest)
            \<and> length (station_context L) = min 15 (length (latest_station_df L))"
    by simp
next
  show "\<exists>rest. mset (station_sample station_cap latest_station_data @ rest) = mset latest_station_data
          \<and> sorted_wrt (\<lambda>r s. name_le (StationName r) (StationName s))
                (station_sample station_cap latest_station_data @ rest)
          \<and> length (station_sample station_cap latest_station_data)
                = min station_cap (length latest_station_data)"
    by (rule station_sample_prefix)
next
  assume "length latest_station_data \<le> station_cap"
  then show "set (station_sample station_cap latest_station_data) = set latest_station_data"
    by (rule station_sample_props(4))
qed

theorem city_context_worst_first_witness:
  "[city ''A'' 0 90, city ''B'' 0 90, city ''C'' 0 5] \<noteq> [] \<and> (1::nat) \<le> 1
   \<and> (\<exists>worst rest. city_sample 1 [city ''A'' 0 90, city ''B'' 0 90, city ''C'' 0 5] = Inr (worst # rest)
          \<and> first_max_by CAQI [city ''A'' 0 90, city ''B'' 0 90, city ''C'' 0 5] = Some worst
          \<and> worst \<in> set [city ''A'' 0 90, city ''B'' 0 90, city ''C'' 0 5]
          \<and> (\<forall>r \<in> set [city ''A'' 0 90, city ''B'' 0 90, city ''C'' 0 5]. CAQI r \<le> CAQI worst)
          \<and> (\<exists>before after. [city ''A'' 0 90, city ''B'' 0 90, city ''C'' 0 5] = before @ worst # after
                \<and> (\<forall>r \<in> set before. CAQI r < CAQI worst)))
   \<and> city_sample 1 [city ''A'' 0 90, city ''B'' 0 90, city ''C'' 0 5] = Inr [city ''A'' 0 90]
   \<and> city_sample 1 [city ''A'' 0 10, city ''B'' 0 90, city ''C'' 0 5] = Inr [city ''B'' 0 90]
   \<and> load_aqi_datasets mixed_city_day mixed_station_day mixed_stations_csv = Inr mixed_loaded
   \<and> (\<exists>worst rest. city_context mixed_loaded = worst # rest
          \<and> worst \<in> set (latest_city_df mixed_loaded)
          \<and> (\<forall>r \<in> set (latest_city_df mixed_loaded). CAQI r \<le> CAQI worst)
          \<and> (\<exists>before after. latest_city_df mixed_loaded = before @ worst # after
                \<and> (\<forall>r \<in> set before. CAQI r < CAQI worst)))
   \<and> city_context mixed_loaded = [city ''Pune'' 1 80, city ''Delhi'' 1 0]
   \<and> (\<exists>rest. mset (station_context mixed_loaded @ rest) = mset (latest_station_df mixed_loaded)
            \<and> sorted_wrt (\<lambda>r s. name_le (StationName r) (StationName s)) (station_context mixed_loaded @ rest)
            \<and> length (station_context mixed_loaded) = min 15 (length (latest_station_df mixed_loaded)))
   \<and> length [station ''C'' 5, station ''B'' 90, station ''A'' 10] \<le> 3
   \<and> set (station_sample 3 [station ''C'' 5, station ''B'' 90, station ''A'' 10])
       = set [station ''C'' 5, station ''B'' 90, station ''A'' 10]
   \<and> station_sample 2 [station ''C'' 5, station ''B'' 90, station ''A'' 10]
       = [station ''A'' 10, station ''B'' 90]"
proof -
  let ?tie = "[city ''A'' 0 90, city ''B'' 0 90, city ''C'' 0 5]"
  let ?st = "[station ''C'' 5, station ''B'' 90, station ''A'' 10]"
  note T = city_context_worst_first[where latest_city_data = ?tie and cap = 1
      and city_day = mixed_city_day and station_day = mixed_station_day
      and stations_csv = mixed_stations_csv and L = mixed_loaded
      and latest_station_data = ?st and station_cap = 3]
  have h1: "?tie \<noteq> [] \<and> (1::nat) \<le> 1" by simp
  have h2: "load_aqi_datasets mixed_city_day mixed_station_day mixed_stations_csv = Inr mixed_loaded"
    by (rule mixed_load)
  have h3: "length ?st \<le> 3" by simp
  have e1: "city_sample 1 ?tie = Inr [city ''A'' 0 90]"
    and e2: "city_sample 1 [city ''A'' 0 10, city ''B'' 0 90, city ''C'' 0 5] = Inr [city ''B'' 0 90]"
    by (simp_all add: city_sample_def city_def)
  have e3: "city_context mixed_loaded = [city ''Pune'' 1 80, city ''Delhi'' 1 0]"
    by (simp add: mixed_loaded_def)
  have e4: "station_sample 2 ?st = [station ''A'' 10, station ''B'' 90]"
    by (simp add: station_sample_def sort_values_def keyed_def station_def)
  from T h1 have c1: "\<exists>worst rest. city_sample 1 ?tie = Inr (worst # rest)
          \<and> first_max_by CAQI ?tie = Some worst
          \<and> worst \<in> set ?tie
          \<and> (\<forall>r \<in> set ?tie. CAQI r \<le> CAQI worst)
          \<and> (\<exists>before after. ?tie = before @ worst # after
                \<and> (\<forall>r \<in> set before. CAQI r < CAQI worst))" by blast
  from T h2 have c2: "\<exists>worst rest. city_context mixed_loaded = worst # rest
          \<and> worst \<in> set (latest_city_df mixed_loaded)
          \<and> (\<forall>r \<in> set (latest_city_df mixed_loaded). CAQI r \<le> CAQI worst)
          \<and> (\<exists>before after. latest_city_df mixed_loaded = before @ worst # after
                \<and> (\<forall>r \<in> set before. CAQI r < CAQI worst))"
    and c3: "\<exists>rest. mset (station_context mixed_loaded @ rest) = mset (latest_station_df mixed_loaded)
            \<and> sorted_wrt (\<lambda>r s. name_le (StationName r) (StationName s)) (station_context mixed_loaded @ rest)
            \<and> length (station_context mixed_loaded) = min 15 (length (latest_station_df mixed_loaded))"
    by blast+
  from T h3 have c4: "set (station_sample 3 ?st) = set ?st" by blast
  from h1 c1 e1 e2 h2 c2 e3 c3 h3 c4 e4 show ?thesis by blast
qed

text \<open>
  The station context of sixteen stations is the fifteen first by name; the station with
  the greatest AQI, last by name, is not in it.
\<close>

theorem station_context_misses_worst:
  "first_max_by SAQI sixteen_stations = Some (station ''S16'' 500)
   \<and> Some ''S16'' \<notin> StationName ` set (context_stations_df sixteen_stations)
   \<and> length (context_stations_df sixteen_stations) = 15"
  by (simp add: context_stations_df_def station_sample_def sort_values_def keyed_def
      sixteen_stations_def station_def)

text \<open>
  C2 (amended). When the selection of the latest rows succeeds, it yields exactly one
  row per distinct entity id present in the day table, in order of id; that row has the
  greatest date among the dated rows of its entity and is the first row of the table, in
  source order, with that date. The selection succeeds exactly when every entity has a row
  with a date; otherwise the load fails. The latest city table the loader returns is made
  of the selected rows whose AQI is not missing: it has at most one row per city, and
  exactly the cities whose selected row has an AQI. The latest station table is made from
  the selected station rows whose AQI is not missing, joined to the station metadata: when
  the metadata lists no station id twice it has exactly one row for each of those selected
  rows, hence at most one per station id; a station listed twice can have more.
\<close>

theorem latest_selection:
  "(latest df = Inr rows \<longrightarrow>
      map Key rows = map Some (group_keys df)
      \<and> distinct (group_keys df)
      \<and> set (group_keys df) = {k. \<exists>r \<in> set df. Key r = Some k}
      \<and> (\<forall>n < length rows. \<exists>i. is_latest df (group_keys df ! n) i \<and> rows ! n = df ! i)
      \<and> distinct (map City (latest_city_data_of rows))
      \<and> set (map City (latest_city_data_of rows)) = {c. \<exists>r \<in> set rows. Key r = Some c \<and> AQI r \<noteq> Null})
   \<and> ((\<exists>rows. latest df = Inr rows) =
        (\<forall>k \<in> set (group_keys df). \<exists>r \<in> set df. Key r = Some k \<and> Date r \<noteq> None))
   \<and> (load_aqi_datasets city_day station_day stations_csv = Inr L \<longrightarrow>
        (\<exists>latest_city latest_station.
            latest city_day = Inr latest_city \<and> latest station_day = Inr latest_station
            \<and> latest_city_df L = latest_city_data_of latest_city
            \<and> distinct (map City (latest_city_df L))
            \<and> set (map City (latest_city_df L))
                  = {c. \<exists>r \<in> set latest_city. Key r = Some c \<and> AQI r \<noteq> Null}
            \<and> latest_station_df L =
                  map station_obs_of
                    (filter (\<lambda>lm. AQI (fst lm) \<noteq> Null) (merge_left latest_station stations_csv))
            \<and> (distinct (List.map_filter StationId stations_csv) \<longrightarrow>
                  map fst (filter (\<lambda>lm. AQI (fst lm) \<noteq> Null) (merge_left latest_station stations_csv))
                    = filter (\<lambda>r. AQI r \<noteq> Null) latest_station
                  \<and> distinct (map (\<lambda>lm. Key (fst lm))
                        (filter (\<lambda>lm. AQI (fst lm) \<noteq> Null) (merge_left latest_station stations_csv))))))"
proof (intro conjI impI)
  assume a: "latest df = Inr rows"
  show "map Key rows = map Some (group_keys df)" by (rule latest_Inr(3)[OF a])
  show "distinct (group_keys df)" by (rule group_keys_props(1))
  show "set (group_keys df) = {k. \<exists>r \<in> set df. Key r = Some k}" by (rule group_keys_props(3))
  show "\<forall>n < length rows. \<exists>i. is_latest df (group_keys df ! n) i \<and> rows ! n = df ! i"
    by (rule latest_Inr(2)[OF a])
  show "distinct (map City (latest_city_data_of rows))" by (rule latest_city_data_distinct[OF a])
  show "set (map City (latest_city_data_of rows)) = {c. \<exists>r \<in> set rows. Key r = Some c \<and> AQI r \<noteq> Null}"
    by (rule latest_city_data_of_city_set[OF latest_keys_Some[OF a]])
next
  show "(\<exists>rows. latest df = Inr rows) =
        (\<forall>k \<in> set (group_keys df). \<exists>r \<in> set df. Key r = Some k \<and> Date r \<noteq> None)"
    by (rule latest_total)
next
  assume "load_aqi_datasets city_day station_day stations_csv = Inr L"
  from load_Inr[OF this] obtain lc ls where
    lc: "latest city_day = Inr lc" and ls: "latest station_day = Inr ls"
    and cdf: "latest_city_df L = latest_city_data_of lc"
    and sdf: "latest_station_df L = latest_station_data_of ls stations_csv" by blast
  have d: "distinct (map City (latest_city_df L))"
    unfolding cdf by (rule latest_city_data_distinct[OF lc])
  have c: "set (map City (latest_city_df L)) = {c. \<exists>r \<in> set lc. Key r = Some c \<and> AQI r \<noteq> Null}"
    unfolding cdf by (rule latest_city_data_of_city_set[OF latest_keys_Some[OF lc]])
  have s: "latest_station_df L =
      map station_obs_of (filter (\<lambda>lm. AQI (fst lm) \<noteq> Null) (merge_left ls stations_csv))"
    unfolding sdf by (simp add: latest_station_data_of_def)
  have u: "distinct (List.map_filter StationId stations_csv) \<longrightarrow>
      map fst (filter (\<lambda>lm. AQI (fst lm) \<noteq> Null) (merge_left ls stations_csv))
        = filter (\<lambda>r. AQI r \<noteq> Null) ls
      \<and> distinct (map (\<lambda>lm. Key (fst lm))
            (filter (\<lambda>lm. AQI (fst lm) \<noteq> Null) (merge_left ls stations_csv)))"
    using merged_station_rows[OF ls] by blast
  from lc ls cdf d c s u
  show "\<exists>latest_city latest_station.
            latest city_day = Inr latest_city \<and> latest station_day = Inr latest_station
            \<and> latest_city_df L = latest_city_data_of latest_city
            \<and> distinct (map City (latest_city_df L))
            \<and> set (map City (latest_city_df L))
                  = {c. \<exists>r \<in> set latest_city. Key r = Some c \<and> AQI r \<noteq> Null}
            \<and> latest_station_df L =
                  map station_obs_of
                    (filter (\<lambda>lm. AQI (fst lm) \<noteq> Null) (merge_left latest_station stations_csv))
            \<and> (distinct (List.map_filter StationId stations_csv) \<longrightarrow>
                  map fst (filter (\<lambda>lm. AQI (fst lm) \<noteq> Null) (merge_left latest_station stations_csv))
                    = filter (\<lambda>r. AQI r \<noteq> Null) latest_station
                  \<and> distinct (map (\<lambda>lm. Key (fst lm))
                        (filter (\<lambda>lm. AQI (fst lm) \<noteq> Null) (merge_left latest_station stations_csv))))"
    by blast
qed

theorem latest_selection_witness:
  "latest [day ''Delhi'' 1 (Num 450), day ''Delhi'' 2 (Num 420), day ''Delhi'' 2 (Txt ''x''),
           day ''Mumbai'' 2 (Num 80)]
     = Inr [day ''Delhi'' 2 (Num 420), day ''Mumbai'' 2 (Num 80)]
   \<and> map Key [day ''Delhi'' 2 (Num 420), day ''Mumbai'' 2 (Num 80)]
     = map Some (group_keys [day ''Delhi'' 1 (Num 450), day ''Delhi'' 2 (Num 420),
                             day ''Delhi'' 2 (Txt ''x''), day ''Mumbai'' 2 (Num 80)])
   \<and> group_keys [day ''Delhi'' 1 (Num 450), day ''Delhi'' 2 (Num 420),
                 day ''Delhi'' 2 (Txt ''x''), day ''Mumbai'' 2 (Num 80)] = [''Delhi'', ''Mumbai'']
   \<and> (\<exists>i. is_latest [day ''Delhi'' 1 (Num 450), day ''Delhi'' 2 (Num 420),
                       day ''Delhi'' 2 (Txt ''x''), day ''Mumbai'' 2 (Num 80)] ''Delhi'' i
          \<and> day ''Delhi'' 2 (Num 420) =
              [day ''Delhi'' 1 (Num 450), day ''Delhi'' 2 (Num 420),
               day ''Delhi'' 2 (Txt ''x''), day ''Mumbai'' 2 (Num 80)] ! i)
   \<and> distinct (map City (latest_city_data_of [day ''Delhi'' 2 (Num 420), day ''Mumbai'' 2 (Num 80)]))
   \<and> latest_city_data_of [day ''Delhi'' 2 (Num 420), day ''Mumbai'' 2 (Num 80)]
       = [city ''Delhi'' 2 420, city ''Mumbai'' 2 80]
   \<and> latest [\<lparr>Key = Some ''Pune'', Date = None, AQI = Num 5, Other = ()\<rparr>] = Inl LoadError
   \<and> load_aqi_datasets mixed_city_day mixed_station_day mixed_stations_csv = Inr mixed_loaded
   \<and> distinct (List.map_filter StationId mixed_stations_csv)
   \<and> (\<exists>latest_city latest_station.
          latest mixed_city_day = Inr latest_city \<and> latest mixed_station_day = Inr latest_station
          \<and> latest_city_df mixed_loaded = latest_city_data_of latest_city
          \<and> distinct (map City (latest_city_df mixed_loaded))
          \<and> set (map City (latest_city_df mixed_loaded))
                = {c. \<exists>r \<in> set latest_city. Key r = Some c \<and> AQI r \<noteq> Null}
          \<and> latest_station_df mixed_loaded =
                map station_obs_of
                  (filter (\<lambda>lm. AQI (fst lm) \<noteq> Null) (merge_left latest_station mixed_stations_csv))
          \<and> map fst (filter (\<lambda>lm. AQI (fst lm) \<noteq> Null) (merge_left latest_station mixed_stations_csv))
                = filter (\<lambda>r. AQI r \<noteq> Null) latest_station
          \<and> distinct (map (\<lambda>lm. Key (fst lm))
                (filter (\<lambda>lm. AQI (fst lm) \<noteq> Null) (merge_left latest_station mixed_stations_csv))))
   \<and> map City (latest_city_df mixed_loaded) = [''Delhi'', ''Pune'']
   \<and> map StationName (latest_station_df mixed_loaded) = [Some ''Anand Vihar'']"
proof -
  let ?df = "[day ''Delhi'' 1 (Num 450), day ''Delhi'' 2 (Num 420), day ''Delhi'' 2 (Txt ''x''),
              day ''Mumbai'' 2 (Num 80)]"
  let ?rows = "[day ''Delhi'' 2 (Num 420), day ''Mumbai'' 2 (Num 80)]"
  note T = latest_selection[where df = ?df and rows = ?rows and city_day = mixed_city_day
      and station_day = mixed_station_day and stations_csv = mixed_stations_csv and L = mixed_loaded]
  have h1: "latest ?df = Inr ?rows" by (rule latest_tie_example)
  have h2: "load_aqi_datasets mixed_city_day mixed_station_day mixed_stations_csv = Inr mixed_loaded"
    by (rule mixed_load)
  have h3: "distinct (List.map_filter StationId mixed_stations_csv)"
    by (simp add: mixed_stations_csv_def)
  have g: "group_keys ?df = [''Delhi'', ''Mumbai'']" by (simp add: group_keys_def day_def)
  from T h1 have c1: "map Key ?rows = map Some (group_keys ?df)"
    and c2: "\<forall>n < length ?rows. \<exists>i. is_latest ?df (group_keys ?df ! n) i \<and> ?rows ! n = ?df ! i"
    and c3: "distinct (map City (latest_city_data_of ?rows))" by blast+
  have "(0::nat) < length ?rows" by simp
  from c2[rule_format, OF this]
  have "\<exists>i. is_latest ?df (group_keys ?df ! 0) i \<and> ?rows ! 0 = ?df ! i" .
  then have c2': "\<exists>i. is_latest ?df ''Delhi'' i \<and> day ''Delhi'' 2 (Num 420) = ?df ! i"
    unfolding g by simp
  have e1: "latest_city_data_of ?rows = [city ''Delhi'' 2 420, city ''Mumbai'' 2 80]"
    by (simp add: latest_city_data_of_def city_obs_of_def day_def city_def)
  have e2: "latest [\<lparr>Key = Some ''Pune'', Date = None, AQI = Num 5, Other = ()\<rparr>] = Inl LoadError"
    by (simp add: latest_def group_keys_def idxmax_def dated_def enumerate_eq_zip)
  have e3: "map City (latest_city_df mixed_loaded) = [''Delhi'', ''Pune'']"
    "map StationName (latest_station_df mixed_loaded) = [Some ''Anand Vihar'']"
    by (simp_all add: mixed_loaded_def city_def)
  from T h2 h3 have c4: "\<exists>latest_city latest_station.
          latest mixed_city_day = Inr latest_city \<and> latest mixed_station_day = Inr latest_station
          \<and> latest_city_df mixed_loaded = latest_city_data_of latest_city
          \<and> distinct (map City (latest_city_df mixed_loaded))
          \<and> set (map City (latest_city_df mixed_loaded))
                = {c. \<exists>r \<in> set latest_city. Key r = Some c \<and> AQI r \<noteq> Null}
          \<and> latest_station_df mixed_loaded =
                map station_obs_of
                  (filter (\<lambda>lm. AQI (fst lm) \<noteq> Null) (merge_left latest_station mixed_stations_csv))
          \<and> map fst (filter (\<lambda>lm. AQI (fst lm) \<noteq> Null) (merge_left latest_station mixed_stations_csv))
                = filter (\<lambda>r. AQI r \<noteq> Null) latest_station
          \<and> distinct (map (\<lambda>lm. Key (fst lm))
                (filter (\<lambda>lm. AQI (fst lm) \<noteq> Null) (merge_left latest_station mixed_stations_csv)))"
    by blast
  from h1 c1 g c2' c3 e1 e2 h2 h3 c4 e3 show ?thesis by blast
qed

text \<open>
  An entity whose most recent row has no AQI has no row in the latest table: Delhi is an
  entity of the first day table below, and the table the loader returns holds Mumbai only.
  And a station that the metadata lists twice has two rows in the latest station table.
\<close>

theorem latest_table_lacks_entity:
  "load_aqi_datasets [day ''Delhi'' 1 (Num 450), day ''Delhi'' 2 Null, day ''Mumbai'' 2 (Num 80)] [] []
     = Inr \<lparr>city_context = [city ''Mumbai'' 2 80],
          station_context = [],
          latest_city_df = [city ''Mumbai'' 2 80],
          latest_station_df = [],
          cities = [''Mumbai''],
          stations = []\<rparr>
   \<and> group_keys [day ''Delhi'' 1 (Num 450), day ''Delhi'' 2 Null, day ''Mumbai'' 2 (Num 80)]
     = [''Delhi'', ''Mumbai'']
   \<and> load_aqi_datasets [day ''Mumbai'' 2 (Num 80)] [day ''ST1'' 1 (Num 50)] twice_listed_station
     = Inr \<lparr>city_context = [city ''Mumbai'' 2 80],
          station_context =
            [\<lparr>StationName = Some ''Anand Vihar'', SCity = Some ''Delhi'', SDate = Some 1,
              SAQI = 50, SOther = ()\<rparr>,
             \<lparr>StationName = Some ''Anand Vihar, Delhi'', SCity = Some ''Delhi'', SDate = Some 1,
              SAQI = 50, SOther = ()\<rparr>],
          latest_city_df = [city ''Mumbai'' 2 80],
          latest_station_df =
            [\<lparr>StationName = Some ''Anand Vihar'', SCity = Some ''Delhi'', SDate = Some 1,
              SAQI = 50, SOther = ()\<rparr>,
             \<lparr>StationName = Some ''Anand Vihar, Delhi'', SCity = Some ''Delhi'', SDate = Some 1,
              SAQI = 50, SOther = ()\<rparr>],
          cities = [''Mumbai''],
          stations = [Some ''Anand Vihar'', Some ''Anand Vihar, Delhi'']\<rparr>
   \<and> group_keys [day ''ST1'' 1 (Num 50)] = [''ST1'']"
  by (simp add: load_aqi_datasets_def latest_def group_keys_def idxmax_def dated_def day_def city_def
      enumerate_eq_zip upt_rec latest_city_data_of_def city_obs_of_def latest_station_data_of_def
      merge_left_def station_obs_of_def context_cities_df_def city_sample_def context_stations_df_def
      station_sample_def sort_values_def keyed_def Let_def twice_listed_station_def)

text \<open>
  C3. When the load succeeds, a selected row whose AQI is missing has no row in the latest
  table, while a selected row whose AQI is present is kept: with AQI 0 when the cell is not
  numeric, with its own value when it is. So the rows dropped are exactly those whose AQI was
  missing before the coercion, in the city table and in the station table alike.
\<close>

theorem null_aqi_dropped_text_aqi_zero:
  assumes "load_aqi_datasets city_day station_day stations_csv = Inr L"
  shows "\<exists>latest_city latest_station.
     latest city_day = Inr latest_city \<and> latest station_day = Inr latest_station
     \<and> length (latest_city_df L) = length (filter (\<lambda>r. AQI r \<noteq> Null) latest_city)
     \<and> (\<forall>r \<in> set latest_city. \<forall>c. Key r = Some c \<longrightarrow>
          (AQI r = Null \<longrightarrow> c \<notin> City ` set (latest_city_df L))
          \<and> (\<forall>s. AQI r = Txt s \<longrightarrow>
                \<lparr>City = c, CDate = Date r, CAQI = 0, COther = Other r\<rparr> \<in> set (latest_city_df L))
          \<and> (\<forall>x. AQI r = Num x \<longrightarrow>
                \<lparr>City = c, CDate = Date r, CAQI = x, COther = Other r\<rparr> \<in> set (latest_city_df L)))
     \<and> latest_station_df L =
          map station_obs_of
            (filter (\<lambda>lm. AQI (fst lm) \<noteq> Null) (merge_left latest_station stations_csv))
     \<and> (\<forall>lm \<in> set (merge_left latest_station stations_csv).
          (\<forall>s. AQI (fst lm) = Txt s \<longrightarrow>
                station_obs_of lm \<in> set (latest_station_df L) \<and> SAQI (station_obs_of lm) = 0)
          \<and> (\<forall>x. AQI (fst lm) = Num x \<longrightarrow>
                station_obs_of lm \<in> set (latest_station_df L) \<and> SAQI (station_obs_of lm) = x))"
proof -
  from load_Inr[OF assms] obtain lc ls where
    lc: "latest city_day = Inr lc" and ls: "latest station_day = Inr ls"
    and cdf: "latest_city_df L = latest_city_data_of lc"
    and sdf: "latest_station_df L = latest_station_data_of ls stations_csv" by blast
  have len: "length (latest_city_df L) = length (filter (\<lambda>r. AQI r \<noteq> Null) lc)"
    unfolding cdf by (rule latest_city_data_of_length[OF latest_keys_Some[OF lc]])
  have city: "\<forall>r \<in> set lc. \<forall>c. Key r = Some c \<longrightarrow>
          (AQI r = Null \<longrightarrow> c \<notin> City ` set (latest_city_df L))
          \<and> (\<forall>s. AQI r = Txt s \<longrightarrow>
                \<lparr>City = c, CDate = Date r, CAQI = 0, COther = Other r\<rparr> \<in> set (latest_city_df L))
          \<and> (\<forall>x. AQI r = Num x \<longrightarrow>
                \<lparr>City = c, CDate = Date r, CAQI = x, COther = Other r\<rparr> \<in> set (latest_city_df L))"
  proof (intro ballI allI impI conjI)
    fix r c assume r: "r \<in> set lc" "Key r = Some c"
    show "c \<notin> City ` set (latest_city_df L)" if "AQI r = Null"
      unfolding cdf using lc r that by (rule null_aqi_city_absent)
    show "\<lparr>City = c, CDate = Date r, CAQI = 0, COther = Other r\<rparr> \<in> set (latest_city_df L)"
      if "AQI r = Txt s" for s
      unfolding cdf using city_row_kept[OF r] that by simp
    show "\<lparr>City = c, CDate = Date r, CAQI = x, COther = Other r\<rparr> \<in> set (latest_city_df L)"
      if "AQI r = Num x" for x
      unfolding cdf using city_row_kept[OF r] that by simp
  qed
  have st: "latest_station_df L =
          map station_obs_of (filter (\<lambda>lm. AQI (fst lm) \<noteq> Null) (merge_left ls stations_csv))"
    unfolding sdf by (simp add: latest_station_data_of_def)
  have stn: "\<forall>lm \<in> set (merge_left ls stations_csv).
          (\<forall>s. AQI (fst lm) = Txt s \<longrightarrow>
                station_obs_of lm \<in> set (latest_station_df L) \<and> SAQI (station_obs_of lm) = 0)
          \<and> (\<forall>x. AQI (fst lm) = Num x \<longrightarrow>
                station_obs_of lm \<in> set (latest_station_df L) \<and> SAQI (station_obs_of lm) = x)"
    unfolding st by (auto simp: station_obs_of_def)
  from lc ls len city st stn show ?thesis by blast
qed

theorem null_aqi_dropped_text_aqi_zero_witness:
  "load_aqi_datasets mixed_city_day mixed_station_day mixed_stations_csv = Inr mixed_loaded
   \<and> (\<exists>latest_city latest_station.
     latest mixed_city_day = Inr latest_city \<and> latest mixed_station_day = Inr latest_station
     \<and> length (latest_city_df mixed_loaded) = length (filter (\<lambda>r. AQI r \<noteq> Null) latest_city)
     \<and> (\<forall>r \<in> set latest_city. \<forall>c. Key r = Some c \<longrightarrow>
          (AQI r = Null \<longrightarrow> c \<notin> City ` set (latest_city_df mixed_loaded))
          \<and> (\<forall>s. AQI r = Txt s \<longrightarrow>
                \<lparr>City = c, CDate = Date r, CAQI = 0, COther = Other r\<rparr> \<in> set (latest_city_df mixed_loaded))
          \<and> (\<forall>x. AQI r = Num x \<longrightarrow>
                \<lparr>City = c, CDate = Date r, CAQI = x, COther = Other r\<rparr> \<in> set (latest_city_df mixed_loaded)))
     \<and> latest_station_df mixed_loaded =
          map station_obs_of
            (filter (\<lambda>lm. AQI (fst lm) \<noteq> Null) (merge_left latest_station mixed_stations_csv))
     \<and> (\<forall>lm \<in> set (merge_left latest_station mixed_stations_csv).
          (\<forall>s. AQI (fst lm) = Txt s \<longrightarrow>
                station_obs_of lm \<in> set (latest_station_df mixed_loaded) \<and> SAQI (station_obs_of lm) = 0)
          \<and> (\<forall>x. AQI (fst lm) = Num x \<longrightarrow>
                station_obs_of lm \<in> set (latest_station_df mixed_loaded) \<and> SAQI (station_obs_of lm) = x)))
   \<and> latest mixed_city_day = Inr mixed_city_day
   \<and> map City (latest_city_df mixed_loaded) = [''Delhi'', ''Pune'']
   \<and> map CAQI (latest_city_df mixed_loaded) = [0, 80]
   \<and> map SAQI (latest_station_df mixed_loaded) = [0]"
proof -
  have h: "load_aqi_datasets mixed_city_day mixed_station_day mixed_stations_csv = Inr mixed_loaded"
    by (rule mixed_load)
  have e1: "latest mixed_city_day = Inr mixed_city_day"
    by (simp add: mixed_city_day_def latest_def group_keys_def idxmax_def dated_def day_def
        enumerate_eq_zip upt_rec)
  have e2: "map City (latest_city_df mixed_loaded) = [''Delhi'', ''Pune'']"
    "map CAQI (latest_city_df mixed_loaded) = [0, 80]"
    "map SAQI (latest_station_df mixed_loaded) = [0]"
    by (simp_all add: mixed_loaded_def city_def)
  from h null_aqi_dropped_text_aqi_zero[OF h] e1 e2 show ?thesis by blast
qed

text \<open>
  C4 (amended). For every non-empty latest city table and every cap of at least 1, the
  city sample has at most cap rows and no city twice; its first row has the greatest AQI
  and the rows after it are other rows of the table in ascending order of city name. When
  the table has no city twice, as every table of the loader, they are exactly the first
  \<open>cap - 1\<close> of the remaining rows by name. The station sample has at most cap rows (cap
  rows, or the whole table when that is shorter); followed by the rows it leaves out it
  is the whole table in ascending order of station name with the rows without a name
  last. It is not led by the greatest AQI and it may hold a station name twice.
\<close>

theorem sample_bounds_and_order:
  "(latest_city_data \<noteq> [] \<and> 1 \<le> cap \<longrightarrow>
      (\<exists>worst rest. city_sample cap latest_city_data = Inr (worst # rest)
          \<and> length (worst # rest) \<le> cap
          \<and> distinct (map City (worst # rest))
          \<and> worst \<in> set latest_city_data
          \<and> (\<forall>r \<in> set latest_city_data. CAQI r \<le> CAQI worst)
          \<and> set rest \<subseteq> set latest_city_data
          \<and> sorted (map City rest)
          \<and> (distinct (map City latest_city_data) \<longrightarrow>
                rest = take (cap - 1) (sort_key City (filter (\<lambda>r. r \<noteq> worst) latest_city_data)))))
   \<and> length (station_sample station_cap latest_station_data) \<le> station_cap
   \<and> sorted (List.map_filter StationName (station_sample station_cap latest_station_data))
   \<and> set (station_sample station_cap latest_station_data) \<subseteq> set latest_station_data
   \<and> (\<exists>dropped. mset (station_sample station_cap latest_station_data @ dropped) = mset latest_station_data
          \<and> sorted_wrt (\<lambda>r s. name_le (StationName r) (StationName s))
                (station_sample station_cap latest_station_data @ dropped)
          \<and> length (station_sample station_cap latest_station_data)
                = min station_cap (length latest_station_data))"
proof (intro conjI impI)
  assume a: "latest_city_data \<noteq> [] \<and> 1 \<le> cap"
  then have ne: "latest_city_data \<noteq> []" and cap: "1 \<le> cap" by simp_all
  from city_sample_worst[OF ne, of cap] obtain w where
    w: "first_max_by CAQI latest_city_data = Some w" "w \<in> set latest_city_data"
       "\<forall>r \<in> set latest_city_data. CAQI r \<le> CAQI w"
    and cs: "city_sample cap latest_city_data =
               Inr (w # drop_duplicates City (take (cap - 1)
                      (sort_key City (filter (\<lambda>r. City r \<noteq> City w) latest_city_data))))"
    by blast
  let ?rest = "drop_duplicates City (take (cap - 1)
                      (sort_key City (filter (\<lambda>r. City r \<noteq> City w) latest_city_data)))"
  note P = city_sample_props[OF w(1) cap]
  have d: "distinct (map City latest_city_data) \<longrightarrow>
                ?rest = take (cap - 1) (sort_key City (filter (\<lambda>r. r \<noteq> w) latest_city_data))"
    using city_sample_rest_distinct[OF w(1), of "cap - 1"] by blast
  from cs P(1) P(2) w(2) w(3) P(4) P(3) d
  show "\<exists>worst rest. city_sample cap latest_city_data = Inr (worst # rest)
          \<and> length (worst # rest) \<le> cap
          \<and> distinct (map City (worst # rest))
          \<and> worst \<in> set latest_city_data
          \<and> (\<forall>r \<in> set latest_city_data. CAQI r \<le> CAQI worst)
          \<and> set rest \<subseteq> set latest_city_data
          \<and> sorted (map City rest)
          \<and> (distinct (map City latest_city_data) \<longrightarrow>
                rest = take (cap - 1) (sort_key City (filter (\<lambda>r. r \<noteq> worst) latest_city_data)))"
    by blast
next
  show "length (station_sample station_cap latest_station_data) \<le> station_cap"
    by (rule station_sample_props(1))
next
  show "sorted (List.map_filter StationName (station_sample station_cap latest_station_data))"
    by (rule station_sample_props(2))
next
  show "set (station_sample station_cap latest_station_data) \<subseteq> set latest_station_data"
    by (rule station_sample_props(3))
next
  show "\<exists>dropped. mset (station_sample station_cap latest_station_data @ dropped) = mset latest_station_data
          \<and> sorted_wrt (\<lambda>r s. name_le (StationName r) (StationName s))
                (station_sample station_cap latest_station_data @ dropped)
          \<and> length (station_sample station_cap latest_station_data)
                = min station_cap (length latest_station_data)"
    by (rule station_sample_prefix)
qed

theorem sample_bounds_and_order_witness:
  "[city ''A'' 0 10, city ''B'' 0 90, city ''C'' 0 5] \<noteq> [] \<and> (1::nat) \<le> 3
   \<and> distinct (map City [city ''A'' 0 10, city ''B'' 0 90, city ''C'' 0 5])
   \<and> (\<exists>worst rest. city_sample 3 [city ''A'' 0 10, city ''B'' 0 90, city ''C'' 0 5] = Inr (worst # rest)
          \<and> length (worst # rest) \<le> 3
          \<and> distinct (map City (worst # rest))
          \<and> worst \<in> set [city ''A'' 0 10, city ''B'' 0 90, city ''C'' 0 5]
          \<and> (\<forall>r \<in> set [city ''A'' 0 10, city ''B'' 0 90, city ''C'' 0 5]. CAQI r \<le> CAQI worst)
          \<and> set rest \<subseteq> set [city ''A'' 0 10, city ''B'' 0 90, city ''C'' 0 5]
          \<and> sorted (map City rest)
          \<and> rest = take (3 - 1) (sort_key City (filter (\<lambda>r. r \<noteq> worst) [city ''A'' 0 10, city ''B'' 0 90, city ''C'' 0 5])))
   \<and> city_sample 3 [city ''A'' 0 10, city ''B'' 0 90, city ''C'' 0 5]
        = Inr [city ''B'' 0 90, city ''A'' 0 10, city ''C'' 0 5]
   \<and> city_sample 2 [city ''A'' 0 10, city ''B'' 0 90, city ''C'' 0 5]
        = Inr [city ''B'' 0 90, city ''A'' 0 10]
   \<and> length (station_sample 2 [station ''C'' 5, station ''B'' 90, station ''A'' 10]) \<le> 2
   \<and> sorted (List.map_filter StationName (station_sample 2 [station ''C'' 5, station ''B'' 90, station ''A'' 10]))
   \<and> station_sample 2 [station ''C'' 5, station ''B'' 90, station ''A'' 10] = [station ''A'' 10, station ''B'' 90]
   \<and> (\<exists>dropped. mset (station_sample 2 [station ''C'' 5, station ''B'' 90, station ''A'' 10] @ dropped)
            = mset [station ''C'' 5, station ''B'' 90, station ''A'' 10]
          \<and> sorted_wrt (\<lambda>r s. name_le (StationName r) (StationName s))
                (station_sample 2 [station ''C'' 5, station ''B'' 90, station ''A'' 10] @ dropped)
          \<and> length (station_sample 2 [station ''C'' 5, station ''B'' 90, station ''A'' 10])
                = min 2 (length [station ''C'' 5, station ''B'' 90, station ''A'' 10]))
   \<and> station_sample 2 [unnamed_station 70, station ''C'' 5, station ''A'' 10]
        = [station ''A'' 10, station ''C'' 5]
   \<and> station_sample 3 [unnamed_station 70, station ''C'' 5, station ''A'' 10]
        = [station ''A'' 10, station ''C'' 5, unnamed_station 70]"
proof -
  let ?abc = "[city ''A'' 0 10, city ''B'' 0 90, city ''C'' 0 5]"
  let ?st = "[station ''C'' 5, station ''B'' 90, station ''A'' 10]"
  note T = sample_bounds_and_order[where latest_city_data = ?abc and cap = 3
      and latest_station_data = ?st and station_cap = 2]
  have h: "?abc \<noteq> [] \<and> (1::nat) \<le> 3" by simp
  have d: "distinct (map City ?abc)" by (simp add: city_def)
  from T h d have c1: "\<exists>worst rest. city_sample 3 ?abc = Inr (worst # rest)
          \<and> length (worst # rest) \<le> 3
          \<and> distinct (map City (worst # rest))
          \<and> worst \<in> set ?abc
          \<and> (\<forall>r \<in> set ?abc. CAQI r \<le> CAQI worst)
          \<and> set rest \<subseteq> set ?abc
          \<and> sorted (map City rest)
          \<and> rest = take (3 - 1) (sort_key City (filter (\<lambda>r. r \<noteq> worst) ?abc))"
    by blast
  from T have c2: "length (station_sample 2 ?st) \<le> 2"
    and c3: "sorted (List.map_filter StationName (station_sample 2 ?st))"
    and c4: "\<exists>dropped. mset (station_sample 2 ?st @ dropped) = mset ?st
          \<and> sorted_wrt (\<lambda>r s. name_le (StationName r) (StationName s)) (station_sample 2 ?st @ dropped)
          \<and> length (station_sample 2 ?st) = min 2 (length ?st)" by blast+
  have e4: "station_sample 2 [unnamed_station 70, station ''C'' 5, station ''A'' 10]
        = [station ''A'' 10, station ''C'' 5]"
    and e5: "station_sample 3 [unnamed_station 70, station ''C'' 5, station ''A'' 10]
        = [station ''A'' 10, station ''C'' 5, unnamed_station 70]"
    by (simp_all add: station_sample_def sort_values_def keyed_def station_def unnamed_station_def)
  have e1: "city_sample 3 ?abc = Inr [city ''B'' 0 90, city ''A'' 0 10, city ''C'' 0 5]"
    and e2: "city_sample 2 ?abc = Inr [city ''B'' 0 90, city ''A'' 0 10]"
    by (simp_all add: city_sample_def city_def)
  have e3: "station_sample 2 ?st = [station ''A'' 10, station ''B'' 90]"
    by (simp add: station_sample_def sort_values_def keyed_def station_def)
  from h d c1 e1 e2 c2 c3 e3 c4 e4 e5 show ?thesis by blast
qed

text \<open>
  Over stations A (AQI 10), B (AQI 90) and C (AQI 5) the station context is [A, B, C], not
  [B, A, C]; two stations of the same name both stay; and on an empty table the city
  sampling fails instead of returning rows.
\<close>

theorem station_sample_not_worst_first:
  "context_stations_df [station ''A'' 10, station ''B'' 90, station ''C'' 5]
     = [station ''A'' 10, station ''B'' 90, station ''C'' 5]
   \<and> station_sample 3 [station ''A'' 10, station ''B'' 90, station ''C'' 5]
     = [station ''A'' 10, station ''B'' 90, station ''C'' 5]
   \<and> first_max_by SAQI [station ''A'' 10, station ''B'' 90, station ''C'' 5] = Some (station ''B'' 90)
   \<and> station ''B'' 90 \<noteq> station ''A'' 10
   \<and> map StationName (context_stations_df [station ''A'' 10, station ''A'' 20]) = [Some ''A'', Some ''A'']
   \<and> context_cities_df ([] :: unit city_obs list) = Inl LoadError"
  by (simp add: context_stations_df_def station_sample_def sort_values_def keyed_def station_def
      context_cities_df_def city_sample_def)

text \<open>
  C5. The classifier sends an AQI value to exactly one tier, each threshold inclusive at
  its lower bound: SEVERE exactly from 401 up, VERY_POOR exactly on [301, 401), POOR exactly
  on [201, 301), MODERATE exactly on [101, 201), GOOD exactly below 101; in particular
  every negative value is GOOD. The function is defined on every real number.
\<close>

theorem classify_thresholds:
  "(classify x = SEVERE) = (401 \<le> x)
   \<and> (classify x = VERY_POOR) = (301 \<le> x \<and> x < 401)
   \<and> (classify x = POOR) = (201 \<le> x \<and> x < 301)
   \<and> (classify x = MODERATE) = (101 \<le> x \<and> x < 201)
   \<and> (classify x = GOOD) = (x < 101)
   \<and> (x < 0 \<longrightarrow> classify x = GOOD)"
  by (simp add: classify_def)

theorem classify_thresholds_witness:
  "classify 401 = SEVERE \<and> classify 400.5 = VERY_POOR \<and> classify 301 = VERY_POOR
   \<and> classify 201 = POOR \<and> classify 101 = MODERATE \<and> classify 100 = GOOD
   \<and> (-5::real) < 0 \<and> classify (-5) = GOOD"
  using classify_thresholds [of "-5"] classify_thresholds [of 401]
    classify_thresholds [of "400.5"] classify_thresholds [of 301]
    classify_thresholds [of 201] classify_thresholds [of 101] classify_thresholds [of 100]
  by simp

text \<open>
  C6. The classifier is monotone: a smaller AQI never gets a more severe tier than a
  larger one.
\<close>

theorem classify_monotone:
  "aqi1 < aqi2 \<Longrightarrow> severity (classify aqi1) \<le> severity (classify aqi2)"
  by (simp add: classify_def)

theorem classify_monotone_witness:
  "(150::real) < 350 \<and> severity (classify 150) \<le> severity (classify 350)
   \<and> severity (classify 150) = 1 \<and> severity (classify 350) = 3"
  using classify_monotone [of 150 350] by (simp add: classify_def)

text \<open>
  C7. The batch loop is meant to log one row per query, in input order, falling back to
  the locally measured time when the endpoint reports no service time. It does not when a
  call completes with a usage object whose \<^verbatim>\<open>total_time\<close> is \<^verbatim>\<open>None\<close>: in the run below the
  first query is logged, the second dies of a TypeError at the comparison of line 126
  before any row is written for it, the third is never sent, and the script ends without
  a summary.
\<close>

theorem batch_run_dies_on_none_time:
  "run_queries second_time_is_none 0 [''q1'', ''q2'', ''q3''] =
     ([ApiRequest ''q1'', ApiRequest ''q2'', Uncaught ''TypeError''],
      [\<lparr>Query_ID = 1, User_Query = ''q1'', Groq_Response_Content = ''ok'',
         Total_Response_Time_Seconds = 1/4, Status = SUCCESS\<rparr>])
   \<and> demo2 (Some ''gsk'') (Some [''q1'', ''q2'', ''q3'']) second_time_is_none =
     ([ApiRequest ''q1'', ApiRequest ''q2'', Uncaught ''TypeError''], None)
   \<and> second_time_is_none 1 ''q2'' = CompletedNoneTime ''ok'' (1/2)
   \<and> get_groq_response_and_time (CompletedNoneTime ''ok'' (1/2)) ''q2'' =
     ([ApiRequest ''q2''], ''ok'', None)"
  by (simp add: demo2_def demo2_main_def key_absent_def second_time_is_none_def
      get_groq_response_and_time_def uncaught_def Let_def)

text \<open>
  C8. With the credential present, a non-empty user turn whose call raised still ends
  normally: the reply is a text that contains "error" and the failure reason, it is
  shown as the assistant's message, and the history has grown by exactly the user turn
  followed by the assistant turn holding that text.
\<close>

theorem chat_turn_api_failure:
  assumes "\<not> key_absent GROQ_API_KEY" and "user_query \<noteq> []"
  shows "\<exists>tr reply.
           chat_turn GROQ_API_KEY (Raised e) messages (Some user_query) =
             (tr, messages @ [\<lparr>role = ''user'', content = user_query\<rparr>,
                              \<lparr>role = ''assistant'', content = reply\<rparr>])
           \<and> snd (get_groq_response GROQ_API_KEY (Raised e) user_query) = reply
           \<and> sublist ''error'' reply \<and> sublist e reply
           \<and> Markdown ''assistant'' reply \<in> set tr \<and> \<not> halts tr"
proof -
  let ?tail = "''. The data context size has been reduced. If this persists, check your Groq API tier limits.''"
  let ?reply = "''An API error occurred: '' @ e @ ?tail"
  have g: "get_groq_response GROQ_API_KEY (Raised e) user_query = ([ApiRequest user_query], ?reply)"
    using assms(1) by (simp add: get_groq_response_def)
  have "?reply = ''An API '' @ ''error'' @ ('' occurred: '' @ e @ ?tail)" by simp
  then have s1: "sublist ''error'' ?reply" unfolding sublist_def by blast
  have "?reply = ''An API error occurred: '' @ e @ ?tail" by simp
  then have s2: "sublist e ?reply" unfolding sublist_def by blast
  let ?tr = "[LogChat ''user'' user_query, Markdown ''user'' user_query, ApiRequest user_query,
              Markdown ''assistant'' ?reply, LogChat ''assistant'' ?reply]"
  have t: "chat_turn GROQ_API_KEY (Raised e) messages (Some user_query) =
             (?tr, messages @ [\<lparr>role = ''user'', content = user_query\<rparr>,
                              \<lparr>role = ''assistant'', content = ?reply\<rparr>])"
    using assms(2) g by (simp add: chat_turn_def)
  have h: "\<not> halts ?tr" by (simp add: halts_def exits_def)
  have m: "Markdown ''assistant'' ?reply \<in> set ?tr" by simp
  from g have g': "snd (get_groq_response GROQ_API_KEY (Raised e) user_query) = ?reply" by simp
  from t g' s1 s2 m h show ?thesis by blast
qed

theorem chat_turn_api_failure_witness:
  "\<not> key_absent (Some ''gsk'') \<and> ''hi'' \<noteq> []
   \<and> (\<exists>tr reply.
           chat_turn (Some ''gsk'') (Raised ''timeout'') [] (Some ''hi'') =
             (tr, [] @ [\<lparr>role = ''user'', content = ''hi''\<rparr>,
                        \<lparr>role = ''assistant'', content = reply\<rparr>])
           \<and> snd (get_groq_response (Some ''gsk'') (Raised ''timeout'') ''hi'') = reply
           \<and> sublist ''error'' reply \<and> sublist ''timeout'' reply
           \<and> Markdown ''assistant'' reply \<in> set tr \<and> \<not> halts tr)
   \<and> snd (chat_turn (Some ''gsk'') (Raised ''timeout'') [] (Some ''hi'')) =
        [\<lparr>role = ''user'', content = ''hi''\<rparr>,
         \<lparr>role = ''assistant'', content = ''An API error occurred: timeout. The data context size has been reduced. If this persists, check your Groq API tier limits.''\<rparr>]"
proof -
  have k: "\<not> key_absent (Some ''gsk'')" by (simp add: key_absent_def)
  have q: "''hi'' \<noteq> []" by simp
  have v: "snd (chat_turn (Some ''gsk'') (Raised ''timeout'') [] (Some ''hi'')) =
        [\<lparr>role = ''user'', content = ''hi''\<rparr>,
         \<lparr>role = ''assistant'', content = ''An API error occurred: timeout. The data context size has been reduced. If this persists, check your Groq API tier limits.''\<rparr>]"
    by (simp add: chat_turn_def get_groq_response_def key_absent_def)
  from k q v chat_turn_api_failure[OF k q, of "''timeout''" "[]"] show ?thesis by blast
qed

text \<open>
  C9 (amended). When the credential is absent, the batch script prints the two lines that
  report it and exits with status 1 without any request, whatever the queries file holds.
  The interactive path makes no request either and answers every turn with the message
  that reports the missing credential, but it does not halt: the turn completes and the
  history grows by the user turn and that message.
\<close>

theorem missing_key:
  assumes "key_absent GROQ_API_KEY"
  shows "demo2 GROQ_API_KEY queries_file chat =
           ([Print ''FATAL ERROR: GROQ_API_KEY not found in environment variables.'',
             Print ''Please ensure you have a .env file with GROQ_API_KEY='your_key_here'.'',
             SysExit 1], None)
         \<and> halts (fst (demo2 GROQ_API_KEY queries_file chat))
         \<and> exits (fst (demo2 GROQ_API_KEY queries_file chat)) = [1]
         \<and> requests (fst (demo2 GROQ_API_KEY queries_file chat)) = []
         \<and> get_groq_response GROQ_API_KEY res user_query = ([], missing_key_message)
         \<and> sublist ''GROQ_API_KEY not found'' missing_key_message
         \<and> requests (fst (chat_turn GROQ_API_KEY res messages chat_input)) = []
         \<and> \<not> halts (fst (chat_turn GROQ_API_KEY res messages chat_input))
         \<and> (user_query \<noteq> [] \<longrightarrow>
              snd (chat_turn GROQ_API_KEY res messages (Some user_query)) =
                messages @ [\<lparr>role = ''user'', content = user_query\<rparr>,
                            \<lparr>role = ''assistant'', content = missing_key_message\<rparr>])"
proof -
  have d: "demo2 GROQ_API_KEY queries_file chat =
           ([Print ''FATAL ERROR: GROQ_API_KEY not found in environment variables.'',
             Print ''Please ensure you have a .env file with GROQ_API_KEY='your_key_here'.'',
             SysExit 1], None)"
    using assms by (simp add: demo2_def)
  have d1: "halts (fst (demo2 GROQ_API_KEY queries_file chat))"
    and d2: "exits (fst (demo2 GROQ_API_KEY queries_file chat)) = [1]"
    and d3: "requests (fst (demo2 GROQ_API_KEY queries_file chat)) = []"
    unfolding d by (simp_all add: halts_def exits_def requests_def)
  have g: "get_groq_response GROQ_API_KEY res q = ([], missing_key_message)" for q
    using assms by (simp add: get_groq_response_def)
  have "missing_key_message =
      ([CHR 0xE2, CHR 0x9A, CHR 0xA0, CHR 0xEF, CHR 0xB8, CHR 0x8F] @ '' Error: '') @ ''GROQ_API_KEY not found'' @
      ''. Ensure it is set in your .env file and the 'python-dotenv' library is installed.''"
    by (simp add: missing_key_message_def)
  then have s: "sublist ''GROQ_API_KEY not found'' missing_key_message"
    unfolding sublist_def by blast
  have c1: "requests (fst (chat_turn GROQ_API_KEY res messages chat_input)) = []"
    and c2: "\<not> halts (fst (chat_turn GROQ_API_KEY res messages chat_input))"
    by (cases chat_input; simp add: chat_turn_def g requests_def halts_def exits_def)+
  have c3: "user_query \<noteq> [] \<longrightarrow>
              snd (chat_turn GROQ_API_KEY res messages (Some user_query)) =
                messages @ [\<lparr>role = ''user'', content = user_query\<rparr>,
                            \<lparr>role = ''assistant'', content = missing_key_message\<rparr>]"
    by (simp add: chat_turn_def g)
  from d d1 d2 d3 g s c1 c2 c3 show ?thesis by blast
qed

theorem missing_key_witness:
  "key_absent None
   \<and> demo2 None (Some [''q1'']) every_call_raises =
           ([Print ''FATAL ERROR: GROQ_API_KEY not found in environment variables.'',
             Print ''Please ensure you have a .env file with GROQ_API_KEY='your_key_here'.'',
             SysExit 1], None)
   \<and> halts (fst (demo2 None (Some [''q1'']) every_call_raises))
   \<and> requests (fst (demo2 None (Some [''q1'']) every_call_raises)) = []
   \<and> get_groq_response None (Raised ''x'') ''hi'' = ([], missing_key_message)
   \<and> requests (fst (chat_turn None (Raised ''x'') [] (Some ''hi''))) = []
   \<and> \<not> halts (fst (chat_turn None (Raised ''x'') [] (Some ''hi'')))
   \<and> ''hi'' \<noteq> []
   \<and> snd (chat_turn None (Raised ''x'') [] (Some ''hi'')) =
        [] @ [\<lparr>role = ''user'', content = ''hi''\<rparr>,
              \<lparr>role = ''assistant'', content = missing_key_message\<rparr>]"
proof -
  have k: "key_absent None" by (simp add: key_absent_def)
  have q: "''hi'' \<noteq> []" by simp
  from k q missing_key[OF k, of "Some [''q1'']" every_call_raises "Raised ''x''" "''hi''" "[]" "Some ''hi''"]
  show ?thesis by blast
qed

text \<open>
  The interactive path does not halt on a missing credential: the turn below runs to its
  end, records both messages and never reaches \<^verbatim>\<open>sys.exit\<close>.
\<close>

theorem interactive_turn_does_not_halt:
  "key_absent None
   \<and> \<not> halts (fst (chat_turn None (Completed ''hello'' None 0) [] (Some ''hi'')))
   \<and> snd (chat_turn None (Completed ''hello'' None 0) [] (Some ''hi'')) =
        [\<lparr>role = ''user'', content = ''hi''\<rparr>,
         \<lparr>role = ''assistant'', content = missing_key_message\<rparr>]"
  by (simp add: key_absent_def chat_turn_def get_groq_response_def halts_def exits_def)



end
